theory Spec2Isabelle
  imports Main
begin

section \<open>The date library\<close>

text \<open>
  The module \<^verbatim>\<open>src/utils.ts\<close> computes with \<^verbatim>\<open>dayjs\<close> objects. A \<^verbatim>\<open>dayjs\<close> object wraps a
  JavaScript \<^verbatim>\<open>Date\<close>, which is a number of milliseconds since the epoch; its calendar
  fields are computed from that number by the day-and-time arithmetic of the ECMAScript
  standard (section "Time Values and Time Range"), which the definitions below follow under
  the standard's own names.

  What the model fixes about the library:
  \<^item> local time is the time scale itself, as in a zone at a fixed offset with no daylight
    saving; the last section reads local time through a zone whose offset may change, and
    shows what depends on that;
  \<^item> every instant is a valid date (the parse of a malformed text and the limits of the
    \<^verbatim>\<open>Date\<close> range are left out);
  \<^item> the calendar is the proleptic Gregorian one.
\<close>

type_synonym Dayjs = int

definition msPerDay :: int where
  "msPerDay = 86400000"

definition Day :: "int \<Rightarrow> int" where
  "Day t = t div msPerDay"

definition TimeWithinDay :: "int \<Rightarrow> int" where
  "TimeWithinDay t = t mod msPerDay"

definition MakeDate :: "int \<Rightarrow> int \<Rightarrow> int" where
  "MakeDate d time = d * msPerDay + time"

definition DaysInYear :: "int \<Rightarrow> int" where
  "DaysInYear y =
     (if y mod 4 \<noteq> 0 then 365
      else if y mod 100 \<noteq> 0 then 366
      else if y mod 400 \<noteq> 0 then 365
      else 366)"

definition DayFromYear :: "int \<Rightarrow> int" where
  "DayFromYear y =
     365 * (y - 1970) + (y - 1969) div 4 - (y - 1901) div 100 + (y - 1601) div 400"

text \<open>
  The standard defines the year of a day as the largest \<open>y\<close> with \<open>DayFromYear y\<close> at or
  before it. The search below starts from an estimate and walks to that year; the lemmas
  \<open>year_search_bounds\<close> and \<open>year_unique\<close> show that it finds exactly this \<open>y\<close>.
\<close>

lemma div_step:
  fixes x n :: int
  assumes "0 < n"
  shows "(x + 1) div n = x div n + (if (x + 1) mod n = 0 then 1 else 0)"
proof -
  define q where "q = x div n"
  define r where "r = x mod n"
  have x: "x = n * q + r" by (simp add: q_def r_def)
  have r: "0 \<le> r" "r < n" using assms by (simp_all add: r_def)
  show ?thesis
  proof (cases "r + 1 = n")
    case True
    then have e: "x + 1 = n * (q + 1) + 0" using x by (simp add: algebra_simps)
    have "(x + 1) div n = q + 1" using assms by (intro int_div_pos_eq [OF e]) simp_all
    moreover have "(x + 1) mod n = 0" using assms by (intro int_mod_pos_eq [OF e]) simp_all
    ultimately show ?thesis by (simp add: q_def)
  next
    case False
    then have b: "0 \<le> r + 1" "r + 1 < n" using r by simp_all
    have e: "x + 1 = n * q + (r + 1)" using x by simp
    have "(x + 1) div n = q" by (rule int_div_pos_eq [OF e b])
    moreover have "(x + 1) mod n \<noteq> 0" using int_mod_pos_eq [OF e b] r by linarith
    ultimately show ?thesis by (simp add: q_def)
  qed
qed

lemma DayFromYear_Suc: "DayFromYear (y + 1) = DayFromYear y + DaysInYear y"
proof -
  have a: "(y + 1 - 1969) div 4 = (y - 1969) div 4 + (if y mod 4 = 0 then 1 else 0)"
  proof -
    have "(y - 1969 + 1) mod 4 = y mod 4" by presburger
    then show ?thesis using div_step [of 4 "y - 1969"] by (simp add: algebra_simps)
  qed
  have b: "(y + 1 - 1901) div 100 = (y - 1901) div 100 + (if y mod 100 = 0 then 1 else 0)"
  proof -
    have "(y - 1901 + 1) mod 100 = y mod 100" by algebra
    then show ?thesis using div_step [of 100 "y - 1901"] by (simp add: algebra_simps)
  qed
  have c: "(y + 1 - 1601) div 400 = (y - 1601) div 400 + (if y mod 400 = 0 then 1 else 0)"
  proof -
    have "(y - 1601 + 1) mod 400 = y mod 400" by algebra
    then show ?thesis using div_step [of 400 "y - 1601"] by (simp add: algebra_simps)
  qed
  have d: "y mod 400 = 0 \<Longrightarrow> y mod 100 = 0" "y mod 100 = 0 \<Longrightarrow> y mod 4 = 0"
    by presburger+
  show ?thesis
    unfolding DayFromYear_def DaysInYear_def a b c using d by auto
qed

function year_search :: "int \<Rightarrow> int \<Rightarrow> int" where
  "year_search y d =
     (if d < DayFromYear y then year_search (y - 1) d
      else if DayFromYear (y + 1) \<le> d then year_search (y + 1) d
      else y)"
  by pat_completeness auto
termination
proof (relation "measure (\<lambda>(y, d). nat (if d < DayFromYear y then DayFromYear y - d + 366
                                          else d - DayFromYear y))", goal_cases)
  case 1
  then show ?case by simp
next
  case (2 y d)
  have "DayFromYear y = DayFromYear (y - 1) + DaysInYear (y - 1)"
    using DayFromYear_Suc [of "y - 1"] by simp
  moreover have "365 \<le> DaysInYear (y - 1)" "DaysInYear (y - 1) \<le> 366"
    by (simp_all add: DaysInYear_def)
  ultimately show ?case using 2 by auto
next
  case (3 y d)
  have "DayFromYear (y + 1) = DayFromYear y + DaysInYear y"
    by (rule DayFromYear_Suc)
  moreover have "365 \<le> DaysInYear y" by (simp add: DaysInYear_def)
  ultimately show ?case using 3 by auto
qed

definition YearFromDay :: "int \<Rightarrow> int" where
  "YearFromDay d = year_search (1970 + d div 366) d"

definition InLeapYear :: "int \<Rightarrow> int" where
  "InLeapYear y = (if DaysInYear y = 366 then 1 else 0)"

text \<open>The number of days of year \<open>y\<close> before its month \<open>m\<close> (0 is January).\<close>

definition MonthStart :: "int \<Rightarrow> int \<Rightarrow> int" where
  "MonthStart y m =
     (if m = 0 then 0
      else if m = 1 then 31
      else if m = 2 then 59 + InLeapYear y
      else if m = 3 then 90 + InLeapYear y
      else if m = 4 then 120 + InLeapYear y
      else if m = 5 then 151 + InLeapYear y
      else if m = 6 then 181 + InLeapYear y
      else if m = 7 then 212 + InLeapYear y
      else if m = 8 then 243 + InLeapYear y
      else if m = 9 then 273 + InLeapYear y
      else if m = 10 then 304 + InLeapYear y
      else 334 + InLeapYear y)"

definition DayWithinYear :: "int \<Rightarrow> int" where
  "DayWithinYear d = d - DayFromYear (YearFromDay d)"

definition MonthFromDay :: "int \<Rightarrow> int" where
  "MonthFromDay d =
     (let w = DayWithinYear d; l = InLeapYear (YearFromDay d) in
      if w < 31 then 0
      else if w < 59 + l then 1
      else if w < 90 + l then 2
      else if w < 120 + l then 3
      else if w < 151 + l then 4
      else if w < 181 + l then 5
      else if w < 212 + l then 6
      else if w < 243 + l then 7
      else if w < 273 + l then 8
      else if w < 304 + l then 9
      else if w < 334 + l then 10
      else 11)"

definition DateFromDay :: "int \<Rightarrow> int" where
  "DateFromDay d = DayWithinYear d - MonthStart (YearFromDay d) (MonthFromDay d) + 1"

definition WeekDay :: "int \<Rightarrow> int" where
  "WeekDay d = (d + 4) mod 7"

text \<open>
  \<open>MakeDay\<close> is the day number of a year, month and day of month. The month may lie outside
  0..11 and the day outside the month: both carry over, which is how \<^verbatim>\<open>setDate(0)\<close>
  reaches the last day of the month before.
\<close>

definition MakeDay :: "int \<Rightarrow> int \<Rightarrow> int \<Rightarrow> int" where
  "MakeDay year month dt =
     (let ym = year + month div 12; mn = month mod 12
      in DayFromYear ym + MonthStart ym mn + dt - 1)"

definition DaysInMonth :: "int \<Rightarrow> int \<Rightarrow> int" where
  "DaysInMonth y m =
     (if m = 1 then 28 + InLeapYear y
      else if m = 3 \<or> m = 5 \<or> m = 8 \<or> m = 10 then 30
      else 31)"

subsection \<open>The methods of a dayjs object\<close>

definition dj_year :: "Dayjs \<Rightarrow> int" where
  "dj_year t = YearFromDay (Day t)"

definition dj_month :: "Dayjs \<Rightarrow> int" where
  "dj_month t = MonthFromDay (Day t)"

definition dj_date :: "Dayjs \<Rightarrow> int" where
  "dj_date t = DateFromDay (Day t)"

definition dj_day :: "Dayjs \<Rightarrow> int" where
  "dj_day t = WeekDay (Day t)"

definition dj_hour :: "Dayjs \<Rightarrow> int" where
  "dj_hour t = TimeWithinDay t div 3600000"

definition dj_minute :: "Dayjs \<Rightarrow> int" where
  "dj_minute t = (TimeWithinDay t div 60000) mod 60"

text \<open>
  \<^verbatim>\<open>new Date(y, m, d)\<close> reads a year from 0 to 99 as 1900 plus that year.
\<close>

definition twoDigitYear :: "int \<Rightarrow> int" where
  "twoDigitYear y = (if 0 \<le> y \<and> y \<le> 99 then 1900 + y else y)"

text \<open>
  \<^verbatim>\<open>d.daysInMonth()\<close>: the library takes the day of month of the end of the month, which
  it builds as \<^verbatim>\<open>new Date(y, M + 1, 0)\<close>, the day before day 1 of the next month. The
  year goes through \<^verbatim>\<open>new Date\<close>, so that the result is the number of days of the month
  except for February of year 0, where it is 28, the days of February 1900, and not 29
  (lemma \<open>dj_daysInMonth_eq\<close>).
\<close>

definition dj_daysInMonth :: "Dayjs \<Rightarrow> int" where
  "dj_daysInMonth t = DateFromDay (MakeDay (twoDigitYear (dj_year t)) (dj_month t + 1) 0)"

text \<open>
  \<^verbatim>\<open>d.date(n)\<close>, that is \<^verbatim>\<open>Date.prototype.setDate\<close>: the time of day is kept. This is
  so at a fixed offset; \<open>tz_set_date\<close> in the last section is the method in a zone.
\<close>

definition dj_set_date :: "Dayjs \<Rightarrow> int \<Rightarrow> Dayjs" where
  "dj_set_date t n = MakeDate (MakeDay (dj_year t) (dj_month t) n) (TimeWithinDay t)"

text \<open>\<^verbatim>\<open>Date.prototype.setMonth\<close>.\<close>

definition setMonth :: "Dayjs \<Rightarrow> int \<Rightarrow> Dayjs" where
  "setMonth t m = MakeDate (MakeDay (dj_year t) m (dj_date t)) (TimeWithinDay t)"

text \<open>
  \<^verbatim>\<open>d.add(n, 'month')\<close>: the library goes to day 1, sets the month, and then sets the day of
  month to the old one, or to the last day of the new month when that is shorter.
\<close>

definition dj_add_month :: "Dayjs \<Rightarrow> int \<Rightarrow> Dayjs" where
  "dj_add_month t n =
     (let first = dj_set_date t 1;
          moved = setMonth first (dj_month t + n)
      in dj_set_date moved (min (dj_date t) (dj_daysInMonth moved)))"

subsection \<open>Text\<close>

function string_of_nat :: "nat \<Rightarrow> string" where
  "string_of_nat n =
     (if n < 10 then [''0123456789'' ! n]
      else string_of_nat (n div 10) @ [''0123456789'' ! (n mod 10)])"
  by pat_completeness auto
termination
  by (relation "measure id") auto

text \<open>\<^verbatim>\<open>Number.prototype.toString\<close> on an integer.\<close>

definition toString :: "int \<Rightarrow> string" where
  "toString i = (if i < 0 then CHR ''-'' # string_of_nat (nat (- i)) else string_of_nat (nat i))"

definition padStart :: "string \<Rightarrow> nat \<Rightarrow> char \<Rightarrow> string" where
  "padStart s n pad = (if n \<le> length s then s else replicate (n - length s) pad @ s)"

text \<open>
  \<^verbatim>\<open>d.format(pattern)\<close> for the tokens that the two patterns of this module use:
  \<^verbatim>\<open>YYYY\<close>, \<^verbatim>\<open>MM\<close>, \<^verbatim>\<open>DD\<close>, \<^verbatim>\<open>HH\<close> and \<^verbatim>\<open>mm\<close>. Any other character is copied.
\<close>

fun dj_format :: "Dayjs \<Rightarrow> string \<Rightarrow> string" where
  "dj_format t (a # b # c # d # r) =
     (if [a, b, c, d] = ''YYYY'' then padStart (toString (dj_year t)) 4 CHR ''0'' @ dj_format t r
      else if [a, b] = ''MM'' then padStart (toString (dj_month t + 1)) 2 CHR ''0'' @ dj_format t (c # d # r)
      else if [a, b] = ''DD'' then padStart (toString (dj_date t)) 2 CHR ''0'' @ dj_format t (c # d # r)
      else if [a, b] = ''HH'' then padStart (toString (dj_hour t)) 2 CHR ''0'' @ dj_format t (c # d # r)
      else if [a, b] = ''mm'' then padStart (toString (dj_minute t)) 2 CHR ''0'' @ dj_format t (c # d # r)
      else a # dj_format t (b # c # d # r))"
| "dj_format t (a # b # r) =
     (if [a, b] = ''MM'' then padStart (toString (dj_month t + 1)) 2 CHR ''0'' @ dj_format t r
      else if [a, b] = ''DD'' then padStart (toString (dj_date t)) 2 CHR ''0'' @ dj_format t r
      else if [a, b] = ''HH'' then padStart (toString (dj_hour t)) 2 CHR ''0'' @ dj_format t r
      else if [a, b] = ''mm'' then padStart (toString (dj_minute t)) 2 CHR ''0'' @ dj_format t r
      else a # dj_format t (b # r))"
| "dj_format t r = r"

text \<open>
  \<^verbatim>\<open>parseInt(s, 10)\<close>: white space is skipped, then a sign may stand, then the digits up to
  the first other character are read. \<open>None\<close> is \<^verbatim>\<open>NaN\<close>, the result when no digit stands
  there.
\<close>

definition isDigit :: "char \<Rightarrow> bool" where
  "isDigit c = (c \<in> set ''0123456789'')"

text \<open>The value of a digit is the distance of its code from the code of the digit 0.\<close>

definition digitValue :: "char \<Rightarrow> int" where
  "digitValue c = of_char c - of_char CHR ''0''"

definition isWhiteSpace :: "char \<Rightarrow> bool" where
  "isWhiteSpace c =
     (c = CHR '' '' \<or> c = CHR 0x09 \<or> c = CHR 0x0A \<or> c = CHR 0x0B \<or> c = CHR 0x0C
      \<or> c = CHR 0x0D)"

definition parseDigits :: "string \<Rightarrow> int option" where
  "parseDigits s =
     (let ds = takeWhile isDigit s
      in if ds = [] then None else Some (foldl (\<lambda>a c. 10 * a + digitValue c) 0 ds))"

definition parseInt :: "string \<Rightarrow> int option" where
  "parseInt s =
     (case dropWhile isWhiteSpace s of
        [] \<Rightarrow> None
      | c # r \<Rightarrow>
          if c = CHR ''-'' then map_option uminus (parseDigits r)
          else if c = CHR ''+'' then parseDigits r
          else parseDigits (c # r))"

subsection \<open>Values of JavaScript\<close>

text \<open>
  \<^verbatim>\<open>DateType\<close> is \<^verbatim>\<open>string | number | Date | Dayjs | null | undefined\<close>. The datatype
  \<open>DateType\<close> has the values of it that stand for a date: \<open>Absent\<close> is \<^verbatim>\<open>undefined\<close>, for which
  the library reads the clock; \<open>Number n\<close> is the numeric timestamp \<open>n\<close>; \<open>DateLike t\<close> is a
  text, a \<^verbatim>\<open>Date\<close> or a \<^verbatim>\<open>Dayjs\<close> that the library reads as the instant \<open>t\<close>. For a bound of
  \<open>generateDayObject\<close>, which is tested before it is read, \<open>Absent\<close> is also each of the other
  falsy values that are not the number 0: a bound that is \<^verbatim>\<open>null\<close>, the empty text or \<^verbatim>\<open>NaN\<close>
  is not read either.
\<close>

datatype DateType = Absent | Number int | DateLike Dayjs

text \<open>What \<^verbatim>\<open>if (x)\<close> and \<^verbatim>\<open>!x\<close> test: the number 0 is false, as \<^verbatim>\<open>undefined\<close> is.\<close>

fun truthy :: "DateType \<Rightarrow> bool" where
  "truthy Absent = False"
| "truthy (Number n) = (n \<noteq> 0)"
| "truthy (DateLike t) = True"

text \<open>\<^verbatim>\<open>dayjs(x)\<close>; with \<^verbatim>\<open>undefined\<close> it reads the clock, which is the argument \<open>now\<close>.\<close>

fun dayjs :: "Dayjs \<Rightarrow> DateType \<Rightarrow> Dayjs" where
  "dayjs now Absent = now"
| "dayjs now (Number n) = n"
| "dayjs now (DateLike t) = t"

text \<open>
  \<open>DateValue\<close> has every value of \<^verbatim>\<open>DateType\<close>, also those that the library reads as no date
  and whose object is invalid: \<^verbatim>\<open>null\<close>, the empty text and \<^verbatim>\<open>NaN\<close>, which are falsy, and
  \<open>Unreadable\<close>, a truthy value of this kind (a text that is no date, an infinite number, an
  invalid \<^verbatim>\<open>Date\<close> or \<^verbatim>\<open>Dayjs\<close>). \<open>Readable x\<close> is a value of the datatype above.
\<close>

datatype DateValue = Null | EmptyText | NaN | Unreadable | Readable DateType

fun truthy_value :: "DateValue \<Rightarrow> bool" where
  "truthy_value Null = False"
| "truthy_value EmptyText = False"
| "truthy_value NaN = False"
| "truthy_value Unreadable = True"
| "truthy_value (Readable x) = truthy x"

definition INVALID_DATE_STRING :: string where
  "INVALID_DATE_STRING = ''Invalid Date''"

text \<open>\<^verbatim>\<open>dayjs(x).format(pattern)\<close>: the text of an invalid object is the same for every pattern.\<close>

fun format_value :: "Dayjs \<Rightarrow> DateValue \<Rightarrow> string \<Rightarrow> string" where
  "format_value now (Readable x) pattern = dj_format (dayjs now x) pattern"
| "format_value now Null pattern = INVALID_DATE_STRING"
| "format_value now EmptyText pattern = INVALID_DATE_STRING"
| "format_value now NaN pattern = INVALID_DATE_STRING"
| "format_value now Unreadable pattern = INVALID_DATE_STRING"

text \<open>The operator \<^verbatim>\<open>%\<close>: the remainder has the sign of the dividend.\<close>

definition js_rem :: "int \<Rightarrow> int \<Rightarrow> int" where
  "js_rem a b = sgn a * (\<bar>a\<bar> mod \<bar>b\<bar>)"

text \<open>\<^verbatim>\<open>Array.from({ length: n }, (_, i) => f(i))\<close>: no element when \<open>n\<close> is not positive.\<close>

definition Array_from :: "int \<Rightarrow> (int \<Rightarrow> 'a) \<Rightarrow> 'a list" where
  "Array_from n f = map (\<lambda>i. f (int i)) [0..<nat n]"

text \<open>\<^verbatim>\<open>xs.slice(start, end)\<close>: a negative index counts from the end, and both are clipped.\<close>

definition slice :: "'a list \<Rightarrow> int \<Rightarrow> int \<Rightarrow> 'a list" where
  "slice xs start fin =
     (let len = int (length xs);
          k = (if start < 0 then max (len + start) 0 else min start len);
          final = (if fin < 0 then max (len + fin) 0 else min fin len)
      in take (nat (final - k)) (drop (nat k) xs))"

section \<open>The module \<^verbatim>\<open>src/utils.ts\<close>\<close>

definition CALENDAR_FORMAT :: string where
  "CALENDAR_FORMAT = ''YYYY-MM-DD HH:mm''"

definition DATE_FORMAT :: string where
  "DATE_FORMAT = ''YYYY-MM-DD''"

definition YEAR_PAGE_SIZE :: int where
  "YEAR_PAGE_SIZE = 10"

text \<open>
  The name lists of the current locale, which \<^verbatim>\<open>dayjs.months()\<close>, \<^verbatim>\<open>dayjs.weekdays()\<close>,
  \<^verbatim>\<open>dayjs.weekdaysShort()\<close> and \<^verbatim>\<open>dayjs.weekdaysMin()\<close> return.
\<close>

record Locale =
  months :: "string list"
  weekdays :: "string list"
  weekdaysShort :: "string list"
  weekdaysMin :: "string list"

definition getMonths :: "Locale \<Rightarrow> string list" where
  "getMonths L = months L"

definition getWeekdays :: "Locale \<Rightarrow> string list" where
  "getWeekdays L = weekdays L"

definition getWeekdaysShort :: "Locale \<Rightarrow> string list" where
  "getWeekdaysShort L = weekdaysShort L"

definition getWeekdaysMin :: "Locale \<Rightarrow> int \<Rightarrow> string list" where
  "getWeekdaysMin L firstDayOfWeek =
     (let days = weekdaysMin L
      in if firstDayOfWeek > 0
         then slice days firstDayOfWeek (int (length days)) @ slice days 0 firstDayOfWeek
         else days)"

definition getFormated :: "Dayjs \<Rightarrow> DateType \<Rightarrow> string" where
  "getFormated now date = dj_format (dayjs now date) CALENDAR_FORMAT"

definition getDateMonth :: "Dayjs \<Rightarrow> DateType \<Rightarrow> int" where
  "getDateMonth now date = dj_month (dayjs now date)"

definition getDateYear :: "Dayjs \<Rightarrow> DateType \<Rightarrow> int" where
  "getDateYear now date = dj_year (dayjs now date)"

definition getToday :: "Dayjs \<Rightarrow> string" where
  "getToday now = dj_format now DATE_FORMAT"

text \<open>The arguments of \<open>areDatesOnSameDay\<close> are any two values of \<^verbatim>\<open>DateType\<close>.\<close>

definition areDatesOnSameDay :: "Dayjs \<Rightarrow> DateValue \<Rightarrow> DateValue \<Rightarrow> bool" where
  "areDatesOnSameDay now a b =
     (if \<not> truthy_value a \<or> \<not> truthy_value b then False
      else let date_a = format_value now a DATE_FORMAT;
               date_b = format_value now b DATE_FORMAT
           in date_a = date_b)"

definition getFormatedDate :: "Dayjs \<Rightarrow> DateType \<Rightarrow> string \<Rightarrow> string" where
  "getFormatedDate now date fmt = dj_format (dayjs now date) fmt"

text \<open>
  \<^verbatim>\<open>dayjs(date, CALENDAR_FORMAT)\<close>: the library reads a pattern in the second argument only
  under a plugin that this module does not load, so the call is \<^verbatim>\<open>dayjs(date)\<close>.
\<close>

definition getDate :: "Dayjs \<Rightarrow> DateType \<Rightarrow> Dayjs" where
  "getDate now date = dayjs now date"

text \<open>
  The two years are read with \<^verbatim>\<open>parseInt(dayjs(x).format('YYYY'), 10)\<close>. The pattern
  \<^verbatim>\<open>YYYY\<close> pads the year to four characters with zeros in front, so that the year \<open>- 5\<close> is
  the text \<^verbatim>\<open>00-5\<close>, which \<^verbatim>\<open>parseInt\<close> reads as 0. With \<^verbatim>\<open>NaN\<close> for a year every
  comparison is false and the length is \<^verbatim>\<open>NaN\<close>, for which \<^verbatim>\<open>Array.from\<close> makes no element.
\<close>

definition getYearRange :: "Dayjs \<Rightarrow> int \<Rightarrow> DateType \<Rightarrow> DateType \<Rightarrow> int list" where
  "getYearRange now year_unused maxDate minDate =
     (case (parseInt (dj_format (dayjs now maxDate) ''YYYY''),
            parseInt (dj_format (dayjs now minDate) ''YYYY'')) of
        (Some endYear, Some startYear0) \<Rightarrow>
          (let startYear = (if startYear0 < 0 then 0 else startYear0)
           in Array_from
                (if endYear - startYear > 12 then YEAR_PAGE_SIZE else endYear - startYear + 1)
                (\<lambda>i. startYear + i))
      | _ \<Rightarrow> [])"

record ParsedDate =
  pd_year :: int
  pd_month :: int
  pd_hour :: int
  pd_minute :: int

definition getParsedDate :: "Dayjs \<Rightarrow> DateType \<Rightarrow> ParsedDate" where
  "getParsedDate now date =
     \<lparr>pd_year = dj_year (dayjs now date), pd_month = dj_month (dayjs now date),
      pd_hour = dj_hour (dayjs now date), pd_minute = dj_minute (dayjs now date)\<rparr>"

text \<open>
  A cell of the grid. The field \<^verbatim>\<open>text\<close> of the source is \<open>text'\<close> here, since \<open>text\<close> is a
  word of the theory language.
\<close>

record IDayObject =
  text' :: string
  day :: int
  date :: string
  disabled :: bool
  isCurrentMonth :: bool

definition generateDayObject ::
  "Dayjs \<Rightarrow> int \<Rightarrow> Dayjs \<Rightarrow> DateType \<Rightarrow> DateType \<Rightarrow> bool \<Rightarrow> IDayObject" where
  "generateDayObject now dayNumber thisDate minDate maxDate isCurrent =
     (let disabled0 = False;
          disabled1 = (if truthy minDate then thisDate < getDate now minDate else disabled0);
          disabled2 = (if truthy maxDate \<and> \<not> disabled1 then thisDate > getDate now maxDate
                       else disabled1)
      in \<lparr>text' = toString dayNumber,
          day = dayNumber,
          date = getFormatedDate now (DateLike thisDate) DATE_FORMAT,
          disabled = disabled2,
          isCurrentMonth = isCurrent\<rparr>)"

text \<open>
  The grid: an entry is a cell or \<^verbatim>\<open>null\<close> (\<open>None\<close>). The default of the first parameter,
  \<^verbatim>\<open>datetime = dayjs()\<close>, is taken by \<open>getDate\<close> reading the clock at \<open>Absent\<close>.
  \<^verbatim>\<open>Array(dayOfMonth).fill(null)\<close> gets a length from 0 to 6, a remainder by 7 of a day of
  the week.
\<close>

definition getMonthDays ::
  "Dayjs \<Rightarrow> DateType \<Rightarrow> bool \<Rightarrow> DateType \<Rightarrow> DateType \<Rightarrow> int \<Rightarrow> IDayObject option list" where
  "getMonthDays now datetime displayFullDays minimumDate maximumDate firstDayOfWeek =
     (let thisDate = getDate now datetime;
          daysInMonth = dj_daysInMonth thisDate;
          prevMonthDays = dj_daysInMonth (dj_add_month thisDate (- 1));
          firstDay = dj_set_date thisDate (1 - firstDayOfWeek);
          dayOfMonth = js_rem (dj_day firstDay) 7;
          prevDays =
            (if displayFullDays
             then Array_from dayOfMonth (\<lambda>i.
                    let dayNumber = i + (prevMonthDays - dayOfMonth + 1);
                        thisDay = dj_set_date (dj_add_month thisDate (- 1)) dayNumber
                    in Some (generateDayObject now dayNumber thisDay minimumDate maximumDate False))
             else replicate (nat dayOfMonth) None);
          monthDaysOffset = dayOfMonth + daysInMonth;
          nextMonthDays =
            (if displayFullDays
             then (if monthDaysOffset > 35 then 42 - monthDaysOffset else 35 - monthDaysOffset)
             else 0);
          currentDays =
            Array_from daysInMonth (\<lambda>i.
              let dayNumber = i + 1;
                  thisDay = dj_set_date thisDate dayNumber
              in Some (generateDayObject now dayNumber thisDay minimumDate maximumDate True));
          nextDays =
            Array_from nextMonthDays (\<lambda>i.
              let dayNumber = i + 1;
                  thisDay = dj_set_date (dj_add_month thisDate 1) dayNumber
              in Some (generateDayObject now dayNumber thisDay minimumDate maximumDate False))
      in prevDays @ currentDays @ nextDays)"

section \<open>Facts about the calendar\<close>

lemma DayFromYear_mono: "a \<le> b \<Longrightarrow> DayFromYear a \<le> DayFromYear b"
proof (induction b rule: int_ge_induct)
  case base
  show ?case by simp
next
  case (step i)
  have "0 \<le> DaysInYear i" by (simp add: DaysInYear_def)
  then show ?case using step.IH DayFromYear_Suc [of i] by simp
qed

lemma year_search_bounds:
  "DayFromYear (year_search y d) \<le> d \<and> d < DayFromYear (year_search y d + 1)"
proof (induction y d rule: year_search.induct)
  case (1 y d)
  show ?case
  proof (cases "d < DayFromYear y")
    case True
    then show ?thesis using "1.IH"(1) by (subst (1 2) year_search.simps) simp
  next
    case False
    show ?thesis
    proof (cases "DayFromYear (y + 1) \<le> d")
      case True
      then show ?thesis using False "1.IH"(2) by (subst (1 2) year_search.simps) simp
    next
      case b: False
      then show ?thesis using False by (subst (1 2) year_search.simps) simp
    qed
  qed
qed

lemma YearFromDay_bounds:
  "DayFromYear (YearFromDay d) \<le> d" "d < DayFromYear (YearFromDay d + 1)"
  using year_search_bounds [of "1970 + d div 366" d] by (simp_all add: YearFromDay_def)

lemma year_unique:
  assumes "DayFromYear y \<le> d" "d < DayFromYear (y + 1)"
  shows "YearFromDay d = y"
proof -
  define r where "r = YearFromDay d"
  have b: "DayFromYear r \<le> d" "d < DayFromYear (r + 1)"
    using YearFromDay_bounds [of d] by (simp_all add: r_def)
  have "\<not> r < y"
  proof
    assume "r < y"
    then have "DayFromYear (r + 1) \<le> DayFromYear y" by (intro DayFromYear_mono) simp
    then show False using b assms by simp
  qed
  moreover have "\<not> y < r"
  proof
    assume "y < r"
    then have "DayFromYear (y + 1) \<le> DayFromYear r" by (intro DayFromYear_mono) simp
    then show False using b assms by simp
  qed
  ultimately show ?thesis by (simp add: r_def)
qed

lemma month_cases:
  fixes m :: int
  assumes "0 \<le> m" "m < 12"
  shows "m = 0 \<or> m = 1 \<or> m = 2 \<or> m = 3 \<or> m = 4 \<or> m = 5 \<or> m = 6 \<or> m = 7 \<or> m = 8
         \<or> m = 9 \<or> m = 10 \<or> m = 11"
  using assms by arith

lemma InLeapYear_cases:
  "InLeapYear y = 0 \<and> DaysInYear y = 365 \<or> InLeapYear y = 1 \<and> DaysInYear y = 366"
  by (simp add: InLeapYear_def DaysInYear_def)

lemma MonthStart_bounds:
  assumes "0 \<le> m" "m < 12"
  shows "0 \<le> MonthStart y m \<and> MonthStart y m + DaysInMonth y m \<le> DaysInYear y"
  using month_cases [OF assms] InLeapYear_cases [of y]
  by (elim disjE conjE; simp add: MonthStart_def DaysInMonth_def)

lemma DaysInMonth_bounds: "28 \<le> DaysInMonth y m \<and> DaysInMonth y m \<le> 31"
  using InLeapYear_cases [of y] by (auto simp add: DaysInMonth_def)

lemma month_of_offset:
  assumes m: "0 \<le> m" "m < 12" and d: "1 \<le> d" "d \<le> DaysInMonth y m"
    and w: "w = MonthStart y m + d - 1"
  shows "(if w < 31 then 0
      else if w < 59 + InLeapYear y then 1
      else if w < 90 + InLeapYear y then 2
      else if w < 120 + InLeapYear y then 3
      else if w < 151 + InLeapYear y then 4
      else if w < 181 + InLeapYear y then 5
      else if w < 212 + InLeapYear y then 6
      else if w < 243 + InLeapYear y then 7
      else if w < 273 + InLeapYear y then 8
      else if w < 304 + InLeapYear y then 9
      else if w < 334 + InLeapYear y then 10
      else 11) = m"
  using month_cases [OF m] InLeapYear_cases [of y] d w
  by (elim disjE conjE; simp add: MonthStart_def DaysInMonth_def)

lemma MakeDay_civil:
  assumes m: "0 \<le> m" "m < 12" and d: "1 \<le> d" "d \<le> DaysInMonth y m"
  shows "YearFromDay (MakeDay y m d) = y"
    and "MonthFromDay (MakeDay y m d) = m"
    and "DateFromDay (MakeDay y m d) = d"
proof -
  have e: "MakeDay y m d = DayFromYear y + MonthStart y m + d - 1"
    using m by (simp add: MakeDay_def)
  have "DayFromYear y \<le> MakeDay y m d" "MakeDay y m d < DayFromYear (y + 1)"
    using MonthStart_bounds [OF m, of y] d by (simp_all add: e DayFromYear_Suc)
  then show y: "YearFromDay (MakeDay y m d) = y" by (rule year_unique)
  have w: "DayWithinYear (MakeDay y m d) = MonthStart y m + d - 1"
    by (simp add: DayWithinYear_def y) (simp add: e)
  show mo: "MonthFromDay (MakeDay y m d) = m"
    using month_of_offset [OF m d refl] by (simp add: MonthFromDay_def w y)
  show "DateFromDay (MakeDay y m d) = d"
    by (simp add: DateFromDay_def w y mo)
qed

lemma MonthFromDay_range: "0 \<le> MonthFromDay d \<and> MonthFromDay d < 12"
  by (simp add: MonthFromDay_def Let_def)

lemma DateFromDay_range:
  "1 \<le> DateFromDay d \<and> DateFromDay d \<le> DaysInMonth (YearFromDay d) (MonthFromDay d)"
proof -
  define y where "y = YearFromDay d"
  define w where "w = DayWithinYear d"
  have w: "0 \<le> w" "w < DaysInYear y"
    using YearFromDay_bounds [of d] by (simp_all add: w_def y_def DayWithinYear_def DayFromYear_Suc)
  have "1 \<le> w - MonthStart y (MonthFromDay d) + 1 \<and>
        w - MonthStart y (MonthFromDay d) + 1 \<le> DaysInMonth y (MonthFromDay d)"
    unfolding MonthFromDay_def Let_def w_def [symmetric] y_def [symmetric]
    using InLeapYear_cases [of y] w
    by (elim disjE conjE; simp add: MonthStart_def DaysInMonth_def)
  then show ?thesis by (simp add: DateFromDay_def w_def y_def)
qed

lemma MakeDay_DateFromDay:
  "MakeDay (YearFromDay d) (MonthFromDay d) (DateFromDay d) = d"
  using MonthFromDay_range [of d]
  by (simp add: MakeDay_def DateFromDay_def DayWithinYear_def)

lemma TimeWithinDay_range: "0 \<le> TimeWithinDay t \<and> TimeWithinDay t < msPerDay"
  by (simp add: TimeWithinDay_def msPerDay_def)

lemma Day_MakeDate:
  assumes "0 \<le> s" "s < msPerDay"
  shows "Day (MakeDate d s) = d" and "TimeWithinDay (MakeDate d s) = s"
proof -
  have e: "MakeDate d s = msPerDay * d + s" by (simp add: MakeDate_def)
  show "Day (MakeDate d s) = d"
    unfolding Day_def by (rule int_div_pos_eq [OF e assms])
  show "TimeWithinDay (MakeDate d s) = s"
    unfolding TimeWithinDay_def by (rule int_mod_pos_eq [OF e assms])
qed

lemma MakeDate_Day: "MakeDate (Day t) (TimeWithinDay t) = t"
  by (simp add: MakeDate_def Day_def TimeWithinDay_def)

lemma MakeDay_month_norm: "MakeDay y m d = MakeDay (y + m div 12) (m mod 12) d"
  by (simp add: MakeDay_def)

lemma MakeDay_shift: "MakeDay y m (d + k) = MakeDay y m d + k"
  by (simp add: MakeDay_def Let_def)

lemma MakeDay_civil_gen:
  assumes "1 \<le> d" "d \<le> DaysInMonth (y + m div 12) (m mod 12)"
  shows "YearFromDay (MakeDay y m d) = y + m div 12"
    and "MonthFromDay (MakeDay y m d) = m mod 12"
    and "DateFromDay (MakeDay y m d) = d"
proof -
  have r: "0 \<le> m mod 12" "m mod 12 < 12" by simp_all
  show "YearFromDay (MakeDay y m d) = y + m div 12"
    by (subst MakeDay_month_norm) (rule MakeDay_civil [OF r assms])
  show "MonthFromDay (MakeDay y m d) = m mod 12"
    by (subst MakeDay_month_norm) (rule MakeDay_civil [OF r assms])
  show "DateFromDay (MakeDay y m d) = d"
    by (subst MakeDay_month_norm) (rule MakeDay_civil [OF r assms])
qed

lemma MonthStart_next:
  assumes "0 \<le> m" "m < 11"
  shows "MonthStart y (m + 1) = MonthStart y m + DaysInMonth y m"
proof -
  have "m = 0 \<or> m = 1 \<or> m = 2 \<or> m = 3 \<or> m = 4 \<or> m = 5 \<or> m = 6 \<or> m = 7 \<or> m = 8
         \<or> m = 9 \<or> m = 10"
    using assms by arith
  then show ?thesis
    by (elim disjE; simp add: MonthStart_def DaysInMonth_def)
qed

lemma MonthStart_last: "MonthStart y 11 + DaysInMonth y 11 = DaysInYear y"
  using InLeapYear_cases [of y] by (auto simp add: MonthStart_def DaysInMonth_def)

lemma MakeDay_unfold:
  "MakeDay y m d = DayFromYear (y + m div 12) + MonthStart (y + m div 12) (m mod 12) + d - 1"
  by (simp add: MakeDay_def Let_def)

lemma MakeDay_next_month:
  "MakeDay y (m + 1) d = MakeDay y m d + DaysInMonth (y + m div 12) (m mod 12)"
proof (cases "(m + 1) mod 12 = 0")
  case True
  then have dv: "(m + 1) div 12 = m div 12 + 1" using div_step [of 12 m] by simp
  have md: "m mod 12 = 11"
    using minus_mult_div_eq_mod [of m 12] minus_mult_div_eq_mod [of "m + 1" 12] True dv
    by linarith
  have z: "MonthStart (y + m div 12 + 1) 0 = 0" by (simp add: MonthStart_def)
  have e1: "MakeDay y (m + 1) d = DayFromYear (y + m div 12 + 1) + d - 1"
    unfolding MakeDay_unfold dv True add.assoc [symmetric] z by simp
  have e2: "MakeDay y m d = DayFromYear (y + m div 12) + MonthStart (y + m div 12) 11 + d - 1"
    unfolding MakeDay_unfold md by simp
  show ?thesis
    unfolding e1 e2 md
    using MonthStart_last [of "y + m div 12"] DayFromYear_Suc [of "y + m div 12"]
    by linarith
next
  case False
  then have dv: "(m + 1) div 12 = m div 12" using div_step [of 12 m] by simp
  have md: "(m + 1) mod 12 = m mod 12 + 1"
    using minus_mult_div_eq_mod [of m 12] minus_mult_div_eq_mod [of "m + 1" 12] dv
    by linarith
  have "(m + 1) mod 12 < 12" by simp
  then have lt: "m mod 12 < 11" using md by linarith
  have ge: "0 \<le> m mod 12" by simp
  show ?thesis
    unfolding MakeDay_unfold dv md MonthStart_next [OF ge lt] by linarith
qed

lemma MakeDay_prev_month:
  "MakeDay y (m - 1) d = MakeDay y m d - DaysInMonth (y + (m - 1) div 12) ((m - 1) mod 12)"
  using MakeDay_next_month [of y "m - 1" d] by simp

lemma dj_month_range: "0 \<le> dj_month t \<and> dj_month t < 12"
  by (simp add: dj_month_def MonthFromDay_range)

lemma dj_date_range: "1 \<le> dj_date t \<and> dj_date t \<le> DaysInMonth (dj_year t) (dj_month t)"
  using DateFromDay_range [of "Day t"]
  by (simp add: dj_date_def dj_year_def dj_month_def)

lemma InLeapYear_twoDigitYear:
  "InLeapYear (twoDigitYear y) = (if y = 0 then 0 else InLeapYear y)"
proof (cases "0 \<le> y \<and> y \<le> 99")
  case False
  then show ?thesis by (auto simp add: twoDigitYear_def)
next
  case True
  show ?thesis
  proof (cases "y = 0")
    case z: True
    then show ?thesis by (simp add: twoDigitYear_def InLeapYear_def DaysInYear_def)
  next
    case False
    then have r: "0 < y" "y < 100" using True by simp_all
    have a: "(1900 + y) mod 4 = y mod 4" by presburger
    have b: "y mod 100 \<noteq> 0" using r by simp
    have "(1900 + y) mod 100 = y mod 100" by algebra
    then have c: "(1900 + y) mod 100 \<noteq> 0" using b by simp
    show ?thesis
      using True False by (simp add: twoDigitYear_def InLeapYear_def DaysInYear_def a b c)
  qed
qed

lemma DaysInMonth_twoDigitYear:
  "DaysInMonth (twoDigitYear y) m = (if y = 0 \<and> m = 1 then 28 else DaysInMonth y m)"
  by (simp add: DaysInMonth_def InLeapYear_twoDigitYear)

lemma dj_daysInMonth_eq:
  "dj_daysInMonth t = DaysInMonth (twoDigitYear (dj_year t)) (dj_month t)"
proof -
  define y where "y = twoDigitYear (dj_year t)"
  define m where "m = dj_month t"
  have m: "0 \<le> m" "m < 12" using dj_month_range [of t] by (simp_all add: m_def)
  have d: "1 \<le> DaysInMonth y m" using DaysInMonth_bounds [of y m] by simp
  have "MakeDay y (m + 1) 0 = MakeDay y m 0 + DaysInMonth y m"
    using MakeDay_next_month [of y m 0] m by simp
  also have "\<dots> = MakeDay y m (DaysInMonth y m)"
    using MakeDay_shift [of y m 0 "DaysInMonth y m"] by simp
  finally have "DateFromDay (MakeDay y (m + 1) 0) = DaysInMonth y m"
    using MakeDay_civil(3) [OF m d] by simp
  then show ?thesis by (simp add: dj_daysInMonth_def y_def m_def)
qed

lemma dj_daysInMonth_bounds: "28 \<le> dj_daysInMonth t \<and> dj_daysInMonth t \<le> 31"
  by (simp add: dj_daysInMonth_eq DaysInMonth_bounds)

lemma dj_daysInMonth_le: "dj_daysInMonth t \<le> DaysInMonth (dj_year t) (dj_month t)"
  using DaysInMonth_bounds [of "dj_year t" "dj_month t"] DaysInMonth_bounds [of 0 1]
  by (simp add: dj_daysInMonth_eq DaysInMonth_twoDigitYear)

lemma Day_set_date: "Day (dj_set_date t n) = MakeDay (dj_year t) (dj_month t) n"
  and TimeWithinDay_set_date: "TimeWithinDay (dj_set_date t n) = TimeWithinDay t"
  using TimeWithinDay_range [of t] by (simp_all add: dj_set_date_def Day_MakeDate)

lemma Day_setMonth: "Day (setMonth t m) = MakeDay (dj_year t) m (dj_date t)"
  and TimeWithinDay_setMonth: "TimeWithinDay (setMonth t m) = TimeWithinDay t"
  using TimeWithinDay_range [of t] by (simp_all add: setMonth_def Day_MakeDate)

lemma set_date_fields:
  assumes "1 \<le> n" "n \<le> dj_daysInMonth t"
  shows "dj_year (dj_set_date t n) = dj_year t"
    and "dj_month (dj_set_date t n) = dj_month t"
    and "dj_date (dj_set_date t n) = n"
proof -
  have r: "0 \<le> dj_month t" "dj_month t < 12" using dj_month_range [of t] by simp_all
  have n: "n \<le> DaysInMonth (dj_year t) (dj_month t)"
    using assms dj_daysInMonth_le [of t] by linarith
  show "dj_year (dj_set_date t n) = dj_year t"
    unfolding dj_year_def [of "dj_set_date t n"] Day_set_date
    by (rule MakeDay_civil [OF r assms(1) n])
  show "dj_month (dj_set_date t n) = dj_month t"
    unfolding dj_month_def [of "dj_set_date t n"] Day_set_date
    by (rule MakeDay_civil [OF r assms(1) n])
  show "dj_date (dj_set_date t n) = n"
    unfolding dj_date_def [of "dj_set_date t n"] Day_set_date
    by (rule MakeDay_civil [OF r assms(1) n])
qed

lemma add_month_fields:
  "dj_year (dj_add_month t k) = dj_year t + (dj_month t + k) div 12"
  "dj_month (dj_add_month t k) = (dj_month t + k) mod 12"
  "TimeWithinDay (dj_add_month t k) = TimeWithinDay t"
proof -
  define y where "y = dj_year t"
  define m where "m = dj_month t"
  define y' where "y' = y + (m + k) div 12"
  define m' where "m' = (m + k) mod 12"
  define first where "first = dj_set_date t 1"
  define moved where "moved = setMonth first (m + k)"
  define n where "n = min (dj_date t) (dj_daysInMonth moved)"
  have one: "(1::int) \<le> dj_daysInMonth t"
    using dj_daysInMonth_bounds [of t] by simp
  have f: "dj_year first = y" "dj_date first = 1"
    using set_date_fields [OF _ one] by (simp_all add: first_def y_def)
  have one': "(1::int) \<le> DaysInMonth (y + (m + k) div 12) ((m + k) mod 12)"
    using DaysInMonth_bounds [of "y + (m + k) div 12" "(m + k) mod 12"] by simp
  have dm: "Day moved = MakeDay y (m + k) 1"
    by (simp add: moved_def Day_setMonth f)
  have my: "dj_year moved = y'" and mm: "dj_month moved = m'"
    unfolding dj_year_def dj_month_def dm y'_def m'_def
    using MakeDay_civil_gen [OF _ one'] by simp_all
  have n: "1 \<le> n" "n \<le> dj_daysInMonth moved"
    using dj_date_range [of t] dj_daysInMonth_bounds [of moved]
    by (simp_all add: n_def)
  have e: "dj_add_month t k = dj_set_date moved n"
    by (simp add: dj_add_month_def Let_def n_def moved_def first_def m_def)
  show "dj_year (dj_add_month t k) = dj_year t + (dj_month t + k) div 12"
    using set_date_fields(1) [OF n] by (simp add: e my y'_def y_def m_def)
  show "dj_month (dj_add_month t k) = (dj_month t + k) mod 12"
    using set_date_fields(2) [OF n] by (simp add: e mm m'_def m_def)
  show "TimeWithinDay (dj_add_month t k) = TimeWithinDay t"
    by (simp add: e TimeWithinDay_set_date moved_def TimeWithinDay_setMonth first_def)
qed

lemma set_date_add_month:
  "dj_set_date (dj_add_month t k) n =
     MakeDate (MakeDay (dj_year t) (dj_month t + k) n) (TimeWithinDay t)"
  unfolding dj_set_date_def add_month_fields
  by (subst (2) MakeDay_month_norm) (rule refl)

lemma daysInMonth_add_month:
  "dj_daysInMonth (dj_add_month t k) =
     DaysInMonth (twoDigitYear (dj_year t + (dj_month t + k) div 12)) ((dj_month t + k) mod 12)"
  by (simp add: dj_daysInMonth_eq add_month_fields)

section \<open>The grid in the words of the specification\<close>

text \<open>
  The three definitions below are not part of the module: they name what the specification
  speaks of. \<open>instantAt y m d s\<close> is the instant at \<open>s\<close> milliseconds into day \<open>d\<close> of
  month \<open>m\<close> (0 is January) of year \<open>y\<close>. \<open>leadOffset\<close> is the weekday of day 1 of the month,
  shifted back by the first day of the week, modulo 7. \<open>trailingLength\<close> is the number of
  cells after the month, from the number of cells that the offset and the month occupy.
\<close>

definition instantAt :: "int \<Rightarrow> int \<Rightarrow> int \<Rightarrow> int \<Rightarrow> Dayjs" where
  "instantAt y m d s = MakeDate (MakeDay y m d) s"

definition leadOffset :: "Dayjs \<Rightarrow> int \<Rightarrow> int" where
  "leadOffset t firstDayOfWeek = (dj_day (dj_set_date t 1) - firstDayOfWeek) mod 7"

definition trailingLength :: "int \<Rightarrow> int" where
  "trailingLength occupied = (if occupied > 35 then 42 - occupied else 35 - occupied)"

lemma js_rem_small: "0 \<le> a \<Longrightarrow> a < b \<Longrightarrow> js_rem a b = a"
  by (cases "a = 0") (simp_all add: js_rem_def)

lemma WeekDay_range: "0 \<le> WeekDay d \<and> WeekDay d < 7"
  by (simp add: WeekDay_def)

lemma leadOffset_range: "0 \<le> leadOffset t f \<and> leadOffset t f < 7"
  by (simp add: leadOffset_def)

lemma dayOfMonth_eq: "js_rem (dj_day (dj_set_date t (1 - f))) 7 = leadOffset t f"
proof -
  have a: "dj_day (dj_set_date t (1 - f)) = (MakeDay (dj_year t) (dj_month t) 1 - f + 4) mod 7"
    using MakeDay_shift [of "dj_year t" "dj_month t" 1 "- f"]
    by (simp add: dj_day_def Day_set_date WeekDay_def)
  have b: "leadOffset t f = (MakeDay (dj_year t) (dj_month t) 1 + 4 - f) mod 7"
    by (simp add: leadOffset_def dj_day_def Day_set_date WeekDay_def mod_diff_left_eq)
  have "js_rem (dj_day (dj_set_date t (1 - f))) 7 = dj_day (dj_set_date t (1 - f))"
    using WeekDay_range [of "Day (dj_set_date t (1 - f))"] by (intro js_rem_small) (simp_all add: dj_day_def)
  then show ?thesis by (simp add: a b algebra_simps)
qed

lemma getMonthDays_eq:
  fixes now :: Dayjs and datetime :: DateType and f :: int
  defines "t \<equiv> getDate now datetime"
  defines "y \<equiv> dj_year t" and "m \<equiv> dj_month t" and "s \<equiv> TimeWithinDay t"
  defines "lead \<equiv> leadOffset t f"
  defines "dim \<equiv> dj_daysInMonth t"
  defines "p \<equiv> dj_daysInMonth (dj_add_month t (- 1))"
  shows "getMonthDays now datetime full mn mx f =
     (if full
      then map (\<lambda>i. Some (generateDayObject now (int i + (p - lead + 1))
                      (instantAt y (m - 1) (int i + (p - lead + 1)) s) mn mx False)) [0..<nat lead]
      else replicate (nat lead) None)
   @ map (\<lambda>i. Some (generateDayObject now (int i + 1) (instantAt y m (int i + 1) s) mn mx True))
       [0..<nat dim]
   @ map (\<lambda>i. Some (generateDayObject now (int i + 1) (instantAt y (m + 1) (int i + 1) s) mn mx False))
       [0..<nat (if full then trailingLength (lead + dim) else 0)]"
  unfolding getMonthDays_def Let_def dayOfMonth_eq set_date_add_month
    Array_from_def trailingLength_def instantAt_def dj_set_date_def [of _ "_ + _"]
    t_def [symmetric]
  unfolding y_def [symmetric] m_def [symmetric] s_def [symmetric] lead_def [symmetric]
    dim_def [symmetric] p_def [symmetric]
  by (simp cong: if_cong)

section \<open>Lists\<close>

lemma map_upt_upto: "map (\<lambda>i. g (int i + c)) [0..<nat k] = map g [c..c + k - 1]"
proof (rule nth_equalityI)
  show "length (map (\<lambda>i. g (int i + c)) [0..<nat k]) = length (map g [c..c + k - 1])"
    by simp
next
  fix i
  assume "i < length (map (\<lambda>i. g (int i + c)) [0..<nat k])"
  then have i: "i < nat k" by simp
  then have "[c..c + k - 1] ! i = c + int i" by (intro nth_upto) linarith
  then show "map (\<lambda>i. g (int i + c)) [0..<nat k] ! i = map g [c..c + k - 1] ! i"
    using i by (simp add: add.commute)
qed

lemma Array_from_upto: "Array_from k (\<lambda>i. c + i) = [c..c + k - 1]"
  using map_upt_upto [of "\<lambda>x. x" c k] by (simp add: Array_from_def add.commute)

section \<open>The range of years\<close>

lemma year_minus_50: "dj_year (- 63730800000000) = - 50"
  by code_simp

lemma year_0: "dj_year (- 62152876800000) = 0"
  by code_simp

lemma year_minus_5: "dj_year (- 62310729600000) = - 5"
  by code_simp

lemma year_minus_10: "dj_year (- 62468496000000) = - 10"
  by code_simp

lemma year_texts:
  "dj_format (- 63730800000000) ''YYYY'' = ''0-50''"
  "dj_format (- 62152876800000) ''YYYY'' = ''0000''"
  "dj_format (- 62310729600000) ''YYYY'' = ''00-5''"
  "dj_format (- 62468496000000) ''YYYY'' = ''0-10''"
  by code_simp+

lemma year_texts_read:
  "parseInt ''0-50'' = Some 0" "parseInt ''0000'' = Some 0" "parseInt ''00-5'' = Some 0"
  "parseInt ''0-10'' = Some 0"
  by code_simp+

text \<open>
  C5, at a date of \<open>maxDate\<close> in the year \<open>- 50\<close> and a date of \<open>minDate\<close> in the year 0. The
  start year is 0 and the calendar year of \<open>maxDate\<close> is \<open>- 50\<close>, so that the range of the
  claim has \<open>- 50 - 0 + 1\<close> years, none; the module reads the end year from the text
  \<^verbatim>\<open>0-50\<close> as 0 and returns the one year 0.
\<close>

theorem getYearRange_padded_end_year:
  "getYearRange 0 2024 (DateLike (- 63730800000000)) (DateLike (- 62152876800000)) = [0]
   \<and> dj_year (dayjs 0 (DateLike (- 63730800000000))) = - 50
   \<and> dj_year (dayjs 0 (DateLike (- 62152876800000))) = 0
   \<and> dj_format (dayjs 0 (DateLike (- 63730800000000))) ''YYYY'' = ''0-50''"
  by (simp add: getYearRange_def year_texts year_texts_read year_minus_50 year_0 Array_from_def
      YEAR_PAGE_SIZE_def del: dj_format.simps)

text \<open>
  C9, at a date of \<open>maxDate\<close> in the year \<open>- 5\<close> and a date of \<open>minDate\<close> in the year \<open>- 10\<close>.
  The start year is 0, the negative year of \<open>minDate\<close> being replaced, and the calendar year
  of \<open>maxDate\<close> is before it; the module reads both years from their texts \<^verbatim>\<open>00-5\<close> and
  \<^verbatim>\<open>0-10\<close> as 0 and returns the one year 0, not the empty list.
\<close>

theorem getYearRange_not_empty:
  "getYearRange 0 2024 (DateLike (- 62310729600000)) (DateLike (- 62468496000000)) = [0]
   \<and> dj_year (dayjs 0 (DateLike (- 62310729600000))) = - 5
   \<and> dj_year (dayjs 0 (DateLike (- 62468496000000))) = - 10
   \<and> dj_format (dayjs 0 (DateLike (- 62310729600000))) ''YYYY'' = ''00-5''
   \<and> dj_format (dayjs 0 (DateLike (- 62468496000000))) ''YYYY'' = ''0-10''"
  by (simp add: getYearRange_def year_texts year_texts_read year_minus_5 year_minus_10
      Array_from_def YEAR_PAGE_SIZE_def del: dj_format.simps)

section \<open>The names of the weekdays\<close>

text \<open>
  C7. With a first day of the week from 0 up to the length of the list (7 names, so 0 to 6),
  \<open>getWeekdaysMin\<close> returns the minimal names of the locale rotated left by that many
  places; at 0 that is the list itself. \<open>getWeekdays\<close> and \<open>getWeekdaysShort\<close> take no first
  day of the week and return the lists of the locale as they are.
\<close>

theorem getWeekdaysMin_rotate:
  assumes "0 \<le> f" "f < int (length (weekdaysMin L))"
  shows "getWeekdaysMin L f = rotate (nat f) (weekdaysMin L)
     \<and> getWeekdaysMin L 0 = weekdaysMin L
     \<and> getWeekdays L = weekdays L
     \<and> getWeekdaysShort L = weekdaysShort L"
proof -
  have "getWeekdaysMin L f = rotate (nat f) (weekdaysMin L)"
  proof (cases "f = 0")
    case True
    then show ?thesis by (simp add: getWeekdaysMin_def)
  next
    case False
    then have f: "0 < f" using assms by simp
    have a: "slice (weekdaysMin L) f (int (length (weekdaysMin L))) = drop (nat f) (weekdaysMin L)"
      using f assms by (simp add: slice_def Let_def min_def)
    have b: "slice (weekdaysMin L) 0 f = take (nat f) (weekdaysMin L)"
      using f assms by (simp add: slice_def Let_def min_def)
    have "nat f mod length (weekdaysMin L) = nat f" using assms by simp
    then show ?thesis
      using f by (simp add: getWeekdaysMin_def Let_def a b rotate_drop_take)
  qed
  then show ?thesis
    by (simp add: getWeekdaysMin_def getWeekdays_def getWeekdaysShort_def)
qed

theorem getWeekdaysMin_rotate_witness:
  "getWeekdaysMin \<lparr>months = [], weekdays = [], weekdaysShort = [],
       weekdaysMin = [''S'', ''M'', ''T'', ''W'', ''T'', ''F'', ''S'']\<rparr> 2
     = [''T'', ''W'', ''T'', ''F'', ''S'', ''S'', ''M'']"
  using getWeekdaysMin_rotate [of 2 "\<lparr>months = [], weekdays = [], weekdaysShort = [],
       weekdaysMin = [''S'', ''M'', ''T'', ''W'', ''T'', ''F'', ''S'']\<rparr>"]
  by (simp add: rotate_drop_take)

section \<open>The shape of the grid\<close>

lemma trailingLength_range:
  assumes "0 \<le> lead" "lead \<le> 6" "28 \<le> dim" "dim \<le> 31"
  shows "0 \<le> trailingLength (lead + dim) \<and> trailingLength (lead + dim) \<le> 7"
  using assms by (simp add: trailingLength_def)

lemma getMonthDays_regions:
  fixes now :: Dayjs and datetime :: DateType and f :: int
  defines "t \<equiv> getDate now datetime"
  defines "lead \<equiv> leadOffset t f"
  defines "dim \<equiv> dj_daysInMonth t"
  defines "p \<equiv> dj_daysInMonth (dj_add_month t (- 1))"
  shows "getMonthDays now datetime full mn mx f =
     (if full
      then map (\<lambda>d. Some (generateDayObject now d
                  (instantAt (dj_year t) (dj_month t - 1) d (TimeWithinDay t)) mn mx False))
             [p - lead + 1..p]
      else replicate (nat lead) None)
   @ map (\<lambda>d. Some (generateDayObject now d
                  (instantAt (dj_year t) (dj_month t) d (TimeWithinDay t)) mn mx True))
       [1..dim]
   @ map (\<lambda>d. Some (generateDayObject now d
                  (instantAt (dj_year t) (dj_month t + 1) d (TimeWithinDay t)) mn mx False))
       [1..if full then trailingLength (lead + dim) else 0]"
proof -
  have a: "map (\<lambda>i. Some (generateDayObject now (int i + (p - lead + 1))
                      (instantAt (dj_year t) (dj_month t - 1) (int i + (p - lead + 1)) (TimeWithinDay t))
                      mn mx False)) [0..<nat lead]
      = map (\<lambda>d. Some (generateDayObject now d
                  (instantAt (dj_year t) (dj_month t - 1) d (TimeWithinDay t)) mn mx False))
             [p - lead + 1..p]"
    using map_upt_upto [of "\<lambda>d. Some (generateDayObject now d
                  (instantAt (dj_year t) (dj_month t - 1) d (TimeWithinDay t)) mn mx False)"
                "p - lead + 1" lead]
    by simp
  have b: "map (\<lambda>i. Some (generateDayObject now (int i + 1) (instantAt (dj_year t) (dj_month t) (int i + 1) (TimeWithinDay t)) mn mx c))
       [0..<nat k] = map (\<lambda>d. Some (generateDayObject now d
                  (instantAt (dj_year t) (dj_month t) d (TimeWithinDay t)) mn mx c)) [1..k]" for k c
    using map_upt_upto [of "\<lambda>d. Some (generateDayObject now d
                  (instantAt (dj_year t) (dj_month t) d (TimeWithinDay t)) mn mx c)" 1 k]
    by simp
  have c: "map (\<lambda>i. Some (generateDayObject now (int i + 1) (instantAt (dj_year t) (dj_month t + 1) (int i + 1) (TimeWithinDay t)) mn mx c))
       [0..<nat k] = map (\<lambda>d. Some (generateDayObject now d
                  (instantAt (dj_year t) (dj_month t + 1) d (TimeWithinDay t)) mn mx c)) [1..k]" for k c
    using map_upt_upto [of "\<lambda>d. Some (generateDayObject now d
                  (instantAt (dj_year t) (dj_month t + 1) d (TimeWithinDay t)) mn mx c)" 1 k]
    by simp
  show ?thesis
    unfolding getMonthDays_eq t_def [symmetric] lead_def [symmetric] p_def [symmetric]
      dim_def [symmetric] a b c
    by (rule refl)
qed

text \<open>
  C2. With \<open>displayFullDays\<close> the grid has 35 entries when the offset and the days of the
  month together occupy at most 35 cells, and 42 entries otherwise; the offset is a number
  from 0 to 6 whatever the first day of the week is.
\<close>

theorem getMonthDays_full_length:
  "length (getMonthDays now datetime True mn mx f) =
     (if leadOffset (getDate now datetime) f + dj_daysInMonth (getDate now datetime) \<le> 35
      then 35 else 42)
   \<and> length (getMonthDays now datetime True mn mx f) mod 7 = 0
   \<and> 0 \<le> leadOffset (getDate now datetime) f \<and> leadOffset (getDate now datetime) f \<le> 6"
proof -
  define t where "t = getDate now datetime"
  define lead where "lead = leadOffset t f"
  define dim where "dim = dj_daysInMonth t"
  have r: "0 \<le> lead" "lead \<le> 6" "28 \<le> dim" "dim \<le> 31"
    using leadOffset_range [of t f] dj_daysInMonth_bounds [of t] by (simp_all add: lead_def dim_def)
  have "length (getMonthDays now datetime True mn mx f) =
      nat (p - (p - lead + 1) + 1) + nat dim + nat (trailingLength (lead + dim))" for p
    unfolding getMonthDays_regions t_def [symmetric] lead_def [symmetric] dim_def [symmetric]
    by simp
  then have "length (getMonthDays now datetime True mn mx f) =
      nat lead + nat dim + nat (trailingLength (lead + dim))"
    by simp
  then have l: "length (getMonthDays now datetime True mn mx f) = (if lead + dim \<le> 35 then 35 else 42)"
    using r by (auto simp add: trailingLength_def)
  show ?thesis
    using l r unfolding lead_def dim_def t_def by simp
qed

lemma feb_2024: "dj_year 1706745600000 = 2024" "dj_month 1706745600000 = 1"
  "TimeWithinDay 1706745600000 = 0"
  by code_simp+

lemma feb_2024_lead: "leadOffset 1706745600000 0 = 4"
  by code_simp

lemma feb_2024_days: "dj_daysInMonth 1706745600000 = 29"
  by code_simp

theorem getMonthDays_full_length_witness:
  "leadOffset (getDate 0 (DateLike 1706745600000)) 0 = 4
   \<and> dj_daysInMonth (getDate 0 (DateLike 1706745600000)) = 29
   \<and> length (getMonthDays 0 (DateLike 1706745600000) True Absent Absent 0) = 35"
  using getMonthDays_full_length [of 0 "DateLike 1706745600000" Absent Absent 0]
  by (simp add: getDate_def feb_2024_lead feb_2024_days)

text \<open>
  C4. Without \<open>displayFullDays\<close> the grid is \<open>leadOffset\<close> placeholders followed by the cells
  of the days 1 to \<open>daysInMonth\<close> of the reference month, and nothing after them: its
  length is \<open>leadOffset + daysInMonth\<close>, its first \<open>leadOffset\<close> entries are \<open>None\<close>, which
  carry no field at all, and every later entry is a cell of the current month.
\<close>

theorem getMonthDays_placeholders:
  fixes now :: Dayjs and datetime :: DateType and f :: int
  defines "t \<equiv> getDate now datetime"
  defines "lead \<equiv> leadOffset t f"
  defines "dim \<equiv> dj_daysInMonth t"
  shows "getMonthDays now datetime False mn mx f =
       replicate (nat lead) None
     @ map (\<lambda>d. Some (generateDayObject now d
                    (instantAt (dj_year t) (dj_month t) d (TimeWithinDay t)) mn mx True))
         [1..dim]
   \<and> int (length (getMonthDays now datetime False mn mx f)) = lead + dim
   \<and> take (nat lead) (getMonthDays now datetime False mn mx f) = replicate (nat lead) None
   \<and> 0 \<le> lead \<and> lead \<le> 6"
proof -
  have r: "0 \<le> lead" "lead \<le> 6" "28 \<le> dim" "dim \<le> 31"
    using leadOffset_range [of t f] dj_daysInMonth_bounds [of t]
    by (simp_all add: lead_def dim_def)
  have g: "getMonthDays now datetime False mn mx f =
       replicate (nat lead) None
     @ map (\<lambda>d. Some (generateDayObject now d
                    (instantAt (dj_year t) (dj_month t) d (TimeWithinDay t)) mn mx True))
         [1..dim]"
    unfolding getMonthDays_regions t_def [symmetric] lead_def [symmetric] dim_def [symmetric]
    by simp
  have l: "int (length (getMonthDays now datetime False mn mx f)) = lead + dim"
    unfolding g using r by simp
  have k: "take (nat lead) (getMonthDays now datetime False mn mx f) = replicate (nat lead) None"
    unfolding g by simp
  show ?thesis using g l k r by simp
qed

theorem getMonthDays_placeholders_witness:
  "getMonthDays 0 (DateLike 1706745600000) False Absent Absent 0 =
       [None, None, None, None]
     @ map (\<lambda>d. Some (generateDayObject 0 d (instantAt 2024 1 d 0) Absent Absent True)) [1..29]
   \<and> length (getMonthDays 0 (DateLike 1706745600000) False Absent Absent 0) = 33"
  using getMonthDays_placeholders [of 0 "DateLike 1706745600000" Absent Absent 0]
  by (simp add: getDate_def feb_2024 feb_2024_lead feb_2024_days numeral_eq_Suc)

section \<open>The cells of the grid\<close>

text \<open>
  \<open>gridInstant t f i\<close> names the instant of the cell at position \<open>i\<close> of the grid of the
  reference date \<open>t\<close>, at the time of day of \<open>t\<close>: a day of the month before for a position
  before \<open>leadOffset\<close>, counted back from the number that \<^verbatim>\<open>daysInMonth()\<close> returns for that
  month; the days from 1 on of the reference month for the next \<^verbatim>\<open>daysInMonth()\<close> positions;
  and the days from 1 on of the month after for the rest. It is a definition in the words of
  the specification; \<open>getMonthDays_nth\<close> shows that the module builds each cell from this
  instant.
\<close>

definition gridInstant :: "Dayjs \<Rightarrow> int \<Rightarrow> nat \<Rightarrow> Dayjs" where
  "gridInstant t firstDayOfWeek i =
     (let lead = leadOffset t firstDayOfWeek;
          dim = dj_daysInMonth t;
          p = dj_daysInMonth (dj_add_month t (- 1))
      in if int i < lead
         then instantAt (dj_year t) (dj_month t - 1) (int i + (p - lead + 1)) (TimeWithinDay t)
         else if int i < lead + dim
         then instantAt (dj_year t) (dj_month t) (int i - lead + 1) (TimeWithinDay t)
         else instantAt (dj_year t) (dj_month t + 1) (int i - lead - dim + 1) (TimeWithinDay t))"

lemma instantAt_fields:
  assumes "1 \<le> d" "d \<le> DaysInMonth (y + m div 12) (m mod 12)" "0 \<le> s" "s < msPerDay"
  shows "dj_year (instantAt y m d s) = y + m div 12"
    and "dj_month (instantAt y m d s) = m mod 12"
    and "dj_date (instantAt y m d s) = d"
    and "TimeWithinDay (instantAt y m d s) = s"
  using MakeDay_civil_gen [OF assms(1,2)] Day_MakeDate [OF assms(3,4)]
  by (simp_all add: instantAt_def dj_year_def dj_month_def dj_date_def)

lemma getMonthDays_length:
  "length (getMonthDays now datetime full mn mx f) =
     nat (leadOffset (getDate now datetime) f) + nat (dj_daysInMonth (getDate now datetime))
     + nat (if full then trailingLength (leadOffset (getDate now datetime) f
                                         + dj_daysInMonth (getDate now datetime)) else 0)"
  unfolding getMonthDays_eq by simp

lemma getMonthDays_nth:
  fixes now :: Dayjs and datetime :: DateType and f :: int
  defines "t \<equiv> getDate now datetime"
  defines "lead \<equiv> leadOffset t f"
  defines "dim \<equiv> dj_daysInMonth t"
  assumes i: "i < length (getMonthDays now datetime full mn mx f)"
  shows "getMonthDays now datetime full mn mx f ! i =
     (if \<not> full \<and> int i < lead then None
      else Some (generateDayObject now (dj_date (gridInstant t f i)) (gridInstant t f i) mn mx
                   (lead \<le> int i \<and> int i < lead + dim)))"
    and "full \<or> lead \<le> int i \<Longrightarrow>
      dj_year (gridInstant t f i) * 12 + dj_month (gridInstant t f i) =
        dj_year t * 12 + dj_month t
        + (if int i < lead then - 1 else if int i < lead + dim then 0 else 1)"
    and "TimeWithinDay (gridInstant t f i) = TimeWithinDay t"
    and "1 \<le> dj_date (gridInstant t f i)
      \<and> dj_date (gridInstant t f i) \<le> dj_daysInMonth (gridInstant t f i)"
proof -
  define y where "y = dj_year t"
  define m where "m = dj_month t"
  define s where "s = TimeWithinDay t"
  define p where "p = dj_daysInMonth (dj_add_month t (- 1))"
  define n where "n = (if full then trailingLength (lead + dim) else 0)"
  define u where "u = gridInstant t f i"
  have u: "u = (if int i < lead then instantAt y (m - 1) (int i + (p - lead + 1)) s
      else if int i < lead + dim then instantAt y m (int i - lead + 1) s
      else instantAt y (m + 1) (int i - lead - dim + 1) s)"
    by (simp add: u_def gridInstant_def Let_def y_def m_def s_def lead_def dim_def p_def)
  have m: "0 \<le> m" "m < 12" using dj_month_range [of t] by (simp_all add: m_def)
  have md: "m div 12 = 0" "m mod 12 = m" using m by simp_all
  have s: "0 \<le> s" "s < msPerDay" using TimeWithinDay_range [of t] by (simp_all add: s_def)
  have p: "p = DaysInMonth (twoDigitYear (y + (m - 1) div 12)) ((m - 1) mod 12)"
    by (simp add: p_def daysInMonth_add_month y_def m_def)
  have ple: "p \<le> DaysInMonth (y + (m - 1) div 12) ((m - 1) mod 12)"
    using DaysInMonth_bounds [of "y + (m - 1) div 12" "(m - 1) mod 12"] DaysInMonth_bounds [of 0 1]
    by (simp add: p DaysInMonth_twoDigitYear)
  have dim: "dim = DaysInMonth (twoDigitYear y) m"
    by (simp add: dim_def dj_daysInMonth_eq y_def m_def)
  have dle: "dim \<le> DaysInMonth y m"
    using dj_daysInMonth_le [of t] by (simp add: dim_def y_def m_def)
  have r: "0 \<le> lead" "lead \<le> 6" "28 \<le> dim" "dim \<le> 31" "28 \<le> p" "p \<le> 31"
    using leadOffset_range [of t f] dj_daysInMonth_bounds [of t]
      dj_daysInMonth_bounds [of "dj_add_month t (- 1)"]
    by (simp_all add: lead_def dim_def p_def)
  have n: "0 \<le> n" "n \<le> 7"
    using trailingLength_range [OF r(1-4)] by (simp_all add: n_def)
  define A where "A = (if full
      then map (\<lambda>i. Some (generateDayObject now (int i + (p - lead + 1))
                      (instantAt y (m - 1) (int i + (p - lead + 1)) s) mn mx False)) [0..<nat lead]
      else replicate (nat lead) None)"
  define hB where "hB = (\<lambda>i. Some (generateDayObject now (int i + 1)
                      (instantAt y m (int i + 1) s) mn mx True))"
  define hC where "hC = (\<lambda>i. Some (generateDayObject now (int i + 1)
                      (instantAt y (m + 1) (int i + 1) s) mn mx False))"
  have g: "getMonthDays now datetime full mn mx f =
      A @ map hB [0..<nat dim] @ map hC [0..<nat n]"
    unfolding getMonthDays_eq t_def [symmetric] y_def [symmetric] m_def [symmetric]
      s_def [symmetric] lead_def [symmetric] p_def [symmetric] dim_def [symmetric] n_def
      A_def hB_def hC_def
    by (rule refl)
  have lA: "length A = nat lead" by (simp add: A_def)
  have len: "i < nat lead + nat dim + nat n"
    using i unfolding g by (simp add: lA)
  consider (prev) "int i < lead" | (cur) "lead \<le> int i" "int i < lead + dim"
    | (nxt) "lead + dim \<le> int i"
    by linarith
  then have "getMonthDays now datetime full mn mx f ! i =
     (if \<not> full \<and> int i < lead then None
      else Some (generateDayObject now (dj_date u) u mn mx (lead \<le> int i \<and> int i < lead + dim)))
    \<and> (full \<or> lead \<le> int i \<longrightarrow> dj_year u * 12 + dj_month u =
        y * 12 + m + (if int i < lead then - 1 else if int i < lead + dim then 0 else 1))
    \<and> TimeWithinDay u = s
    \<and> 1 \<le> dj_date u \<and> dj_date u \<le> dj_daysInMonth u"
  proof cases
    case prev
    then have il: "i < nat lead" by linarith
    define d where "d = int i + (p - lead + 1)"
    have d: "1 \<le> d" "d \<le> p" using prev r by (simp_all add: d_def)
    have d': "d \<le> DaysInMonth (y + (m - 1) div 12) ((m - 1) mod 12)"
      using d ple by linarith
    have e: "u = instantAt y (m - 1) d s" using prev by (simp add: u d_def)
    have fl: "dj_year u = y + (m - 1) div 12" "dj_month u = (m - 1) mod 12" "dj_date u = d"
      "TimeWithinDay u = s"
      using instantAt_fields [OF d(1) d' s] unfolding e by simp_all
    have du: "dj_daysInMonth u = p"
      by (simp add: dj_daysInMonth_eq fl p)
    have "A ! i = (if full then Some (generateDayObject now d (instantAt y (m - 1) d s) mn mx False)
        else None)"
      using il by (simp add: A_def d_def)
    then have nth: "getMonthDays now datetime full mn mx f ! i =
        (if full then Some (generateDayObject now d u mn mx False) else None)"
      unfolding g e using il lA by (simp add: nth_append)
    have "((m - 1) div 12) * 12 + (m - 1) mod 12 = m - 1" by simp
    then have "(y + (m - 1) div 12) * 12 + (m - 1) mod 12 = y * 12 + m - 1"
      by (simp add: algebra_simps)
    then show ?thesis
      using prev nth d by (simp add: fl du)
  next
    case cur
    then have il: "\<not> i < nat lead" "i - nat lead < nat dim" by linarith+
    define d where "d = int i - lead + 1"
    have d: "1 \<le> d" "d \<le> dim" using cur by (simp_all add: d_def)
    have d': "d \<le> DaysInMonth (y + m div 12) (m mod 12)"
      using d dle by (simp add: md)
    have e: "u = instantAt y m d s" using cur by (simp add: u d_def)
    have fl: "dj_year u = y" "dj_month u = m" "dj_date u = d" "TimeWithinDay u = s"
      using instantAt_fields [OF d(1) d' s] unfolding e by (simp_all add: md)
    have du: "dj_daysInMonth u = dim"
      by (simp add: dj_daysInMonth_eq fl dim)
    have k: "int (i - nat lead) + 1 = d" unfolding d_def using cur r by linarith
    have "(A @ map hB [0..<nat dim] @ map hC [0..<nat n]) ! i = map hB [0..<nat dim] ! (i - nat lead)"
      using il lA by (simp add: nth_append)
    also have "\<dots> = hB (i - nat lead)" using il(2) by simp
    finally have "getMonthDays now datetime full mn mx f ! i =
        Some (generateDayObject now (int (i - nat lead) + 1)
               (instantAt y m (int (i - nat lead) + 1) s) mn mx True)"
      unfolding g hB_def .
    then have nth: "getMonthDays now datetime full mn mx f ! i =
        Some (generateDayObject now d u mn mx True)"
      unfolding k e .
    show ?thesis
      using cur nth d by (simp add: fl du)
  next
    case nxt
    then have il: "\<not> i < nat lead" "\<not> i - nat lead < nat dim" "i - nat lead - nat dim < nat n"
      using len r by linarith+
    have full: "full" using il(3) n_def by (cases full) simp_all
    define d where "d = int i - lead - dim + 1"
    have d: "1 \<le> d" "d \<le> 7" using nxt il(3) n r by (simp_all add: d_def)
    have d': "d \<le> DaysInMonth (y + (m + 1) div 12) ((m + 1) mod 12)"
      using d DaysInMonth_bounds [of "y + (m + 1) div 12" "(m + 1) mod 12"] by linarith
    have e: "u = instantAt y (m + 1) d s" using nxt r by (simp add: u d_def)
    have fl: "dj_year u = y + (m + 1) div 12" "dj_month u = (m + 1) mod 12" "dj_date u = d"
      "TimeWithinDay u = s"
      using instantAt_fields [OF d(1) d' s] unfolding e by simp_all
    have du: "d \<le> dj_daysInMonth u"
      using d dj_daysInMonth_bounds [of u] by linarith
    have k: "int (i - nat lead - nat dim) + 1 = d" unfolding d_def using nxt r by linarith
    have "(A @ map hB [0..<nat dim] @ map hC [0..<nat n]) ! i =
        map hC [0..<nat n] ! (i - nat lead - nat dim)"
      using il(1,2) lA by (simp add: nth_append)
    also have "\<dots> = hC (i - nat lead - nat dim)" using il(3) by simp
    finally have "getMonthDays now datetime full mn mx f ! i =
        Some (generateDayObject now (int (i - nat lead - nat dim) + 1)
               (instantAt y (m + 1) (int (i - nat lead - nat dim) + 1) s) mn mx False)"
      unfolding g hC_def .
    then have nth: "getMonthDays now datetime full mn mx f ! i =
        Some (generateDayObject now d u mn mx False)"
      unfolding k e .
    have "((m + 1) div 12) * 12 + (m + 1) mod 12 = m + 1" by simp
    then have "(y + (m + 1) div 12) * 12 + (m + 1) mod 12 = y * 12 + m + 1"
      by (simp add: algebra_simps)
    then show ?thesis
      using nxt nth full r d du by (simp add: fl)
  qed
  then show "getMonthDays now datetime full mn mx f ! i =
     (if \<not> full \<and> int i < lead then None
      else Some (generateDayObject now (dj_date (gridInstant t f i)) (gridInstant t f i) mn mx
                   (lead \<le> int i \<and> int i < lead + dim)))"
    and "full \<or> lead \<le> int i \<Longrightarrow>
      dj_year (gridInstant t f i) * 12 + dj_month (gridInstant t f i) =
        dj_year t * 12 + dj_month t
        + (if int i < lead then - 1 else if int i < lead + dim then 0 else 1)"
    and "TimeWithinDay (gridInstant t f i) = TimeWithinDay t"
    and "1 \<le> dj_date (gridInstant t f i)
      \<and> dj_date (gridInstant t f i) \<le> dj_daysInMonth (gridInstant t f i)"
    unfolding u_def y_def m_def s_def by simp_all
qed

lemma generateDayObject_fields:
  "text' (generateDayObject now d u mn mx c) = toString d"
  "day (generateDayObject now d u mn mx c) = d"
  "date (generateDayObject now d u mn mx c) = dj_format u DATE_FORMAT"
  "disabled (generateDayObject now d u mn mx c) =
     ((truthy mn \<and> u < getDate now mn) \<or> (truthy mx \<and> getDate now mx < u))"
  "isCurrentMonth (generateDayObject now d u mn mx c) = c"
  by (auto simp add: generateDayObject_def Let_def getFormatedDate_def)






section \<open>The leading cells in March of the year 0\<close>

lemma mar_0000: "leadOffset (- 62160825600000) 0 = 3" "dj_daysInMonth (- 62160825600000) = 31"
  "dj_daysInMonth (dj_add_month (- 62160825600000) (- 1)) = 28"
  "dj_year (- 62160825600000) = 0" "dj_month (- 62160825600000) = 2"
  by code_simp+

lemma mar_0000_length:
  "length (getMonthDays 0 (DateLike (- 62160825600000)) True Absent Absent 0) = 35"
  by (simp add: getMonthDays_length getDate_def mar_0000 trailingLength_def)

lemma mar_0000_instants:
  "gridInstant (- 62160825600000) 0 0 = - 62162380800000"
  "gridInstant (- 62160825600000) 0 (Suc 0) = - 62162294400000"
  "gridInstant (- 62160825600000) 0 2 = - 62162208000000"
  "gridInstant (- 62160825600000) 0 3 = - 62162035200000"
  by code_simp+

lemma mar_0000_cells:
  "generateDayObject 0 (dj_date (- 62162380800000)) (- 62162380800000) Absent Absent False =
     \<lparr>text' = ''26'', day = 26, date = ''0000-02-26'', disabled = False, isCurrentMonth = False\<rparr>"
  "generateDayObject 0 (dj_date (- 62162294400000)) (- 62162294400000) Absent Absent False =
     \<lparr>text' = ''27'', day = 27, date = ''0000-02-27'', disabled = False, isCurrentMonth = False\<rparr>"
  "generateDayObject 0 (dj_date (- 62162208000000)) (- 62162208000000) Absent Absent False =
     \<lparr>text' = ''28'', day = 28, date = ''0000-02-28'', disabled = False, isCurrentMonth = False\<rparr>"
  "generateDayObject 0 (dj_date (- 62162035200000)) (- 62162035200000) Absent Absent True =
     \<lparr>text' = ''1'', day = 1, date = ''0000-03-01'', disabled = False, isCurrentMonth = True\<rparr>"
  by code_simp+

lemma feb_29_0000:
  "dj_format (dj_set_date (- 62160825600000) 0) DATE_FORMAT = ''0000-02-29''"
  "DaysInMonth 0 1 = 29"
  by code_simp+

lemma take_4: "3 < length xs \<Longrightarrow> take 4 xs = [xs ! 0, xs ! 1, xs ! 2, xs ! 3]"
  by (cases xs; cases "tl xs"; cases "tl (tl xs)"; cases "tl (tl (tl xs))") simp_all

text \<open>
  C3, at the reference date 0000-03-15 with the week beginning on Sunday. March of the year
  0 begins on a Wednesday, so that three cells lead. The previous month is February of the
  year 0, a leap year, whose last three days are the 27th, the 28th and the 29th: the day
  before the first of March is 0000-02-29. The library counts the days of a month through
  \<^verbatim>\<open>new Date(y, m, d)\<close>, which reads the year 0 as 1900, and answers 28 for this February.
  The leading cells are the 26th, the 27th and the 28th, the next cell is the first of March,
  and the 29th of February is in no cell.
\<close>

theorem getMonthDays_year_0_march:
  "take 4 (getMonthDays 0 (DateLike (- 62160825600000)) True Absent Absent 0) =
     [Some \<lparr>text' = ''26'', day = 26, date = ''0000-02-26'', disabled = False,
             isCurrentMonth = False\<rparr>,
      Some \<lparr>text' = ''27'', day = 27, date = ''0000-02-27'', disabled = False,
             isCurrentMonth = False\<rparr>,
      Some \<lparr>text' = ''28'', day = 28, date = ''0000-02-28'', disabled = False,
             isCurrentMonth = False\<rparr>,
      Some \<lparr>text' = ''1'', day = 1, date = ''0000-03-01'', disabled = False,
             isCurrentMonth = True\<rparr>]
   \<and> leadOffset (getDate 0 (DateLike (- 62160825600000))) 0 = 3
   \<and> dj_format (getDate 0 (DateLike (- 62160825600000))) DATE_FORMAT = ''0000-03-15''
   \<and> dj_format (dj_set_date (getDate 0 (DateLike (- 62160825600000))) 0) DATE_FORMAT =
       ''0000-02-29''"
proof -
  let ?g = "getMonthDays 0 (DateLike (- 62160825600000)) True Absent Absent 0"
  have l: "0 < length ?g" "1 < length ?g" "2 < length ?g" "3 < length ?g"
    by (simp_all add: mar_0000_length)
  have c: "?g ! 0 = Some \<lparr>text' = ''26'', day = 26, date = ''0000-02-26'', disabled = False,
             isCurrentMonth = False\<rparr>"
    "?g ! 1 = Some \<lparr>text' = ''27'', day = 27, date = ''0000-02-27'', disabled = False,
             isCurrentMonth = False\<rparr>"
    "?g ! 2 = Some \<lparr>text' = ''28'', day = 28, date = ''0000-02-28'', disabled = False,
             isCurrentMonth = False\<rparr>"
    "?g ! 3 = Some \<lparr>text' = ''1'', day = 1, date = ''0000-03-01'', disabled = False,
             isCurrentMonth = True\<rparr>"
    using getMonthDays_nth(1) [OF l(1)] getMonthDays_nth(1) [OF l(2)]
      getMonthDays_nth(1) [OF l(3)] getMonthDays_nth(1) [OF l(4)]
    by (simp_all add: getDate_def mar_0000 mar_0000_instants mar_0000_cells)
  have t: "take 4 ?g = [?g ! 0, ?g ! 1, ?g ! 2, ?g ! 3]"
    using l(4) by (rule take_4)
  have f: "dj_format (- 62160825600000) DATE_FORMAT = ''0000-03-15''"
    by code_simp
  show ?thesis
    unfolding t c by (simp add: getDate_def mar_0000 feb_29_0000 f del: dj_format.simps)
qed

section \<open>Disabled cells\<close>

lemma same_time_less:
  assumes "TimeWithinDay a = TimeWithinDay b"
  shows "(a < b) = (Day a < Day b)"
proof -
  have a: "a = Day a * msPerDay + TimeWithinDay a" by (simp add: Day_def TimeWithinDay_def)
  have b: "b = Day b * msPerDay + TimeWithinDay a"
    unfolding assms by (simp add: Day_def TimeWithinDay_def)
  have p: "0 < msPerDay" by (simp add: msPerDay_def)
  have "(Day a * msPerDay + TimeWithinDay a < Day b * msPerDay + TimeWithinDay a) = (Day a < Day b)"
    using p by simp
  then show ?thesis using a b by simp
qed

text \<open>
  C1, as the module has it. A cell is disabled exactly when \<open>minimumDate\<close> is supplied as a
  truthy value and the instant of the cell is before the instant of \<open>minimumDate\<close>, or
  \<open>maximumDate\<close> is supplied as a truthy value and the instant of the cell is after the
  instant of \<open>maximumDate\<close>. The comparison is of instants, not of calendar dates: with local
  time at a fixed offset the instant of a cell is its calendar date at the time of day of
  the reference date. When a bound has the time of day of the reference date, the comparison
  with it is the comparison of the calendar dates. A cell whose instant is the instant of a
  bound is not disabled by that bound: it is disabled exactly when the other bound
  excludes it.
\<close>

theorem cell_disabled:
  fixes now :: Dayjs and datetime :: DateType and f :: int and i :: nat
  defines "t \<equiv> getDate now datetime"
  defines "u \<equiv> gridInstant t f i"
  assumes "i < length (getMonthDays now datetime full mn mx f)"
    and "getMonthDays now datetime full mn mx f ! i = Some c"
  shows "disabled c = ((truthy mn \<and> u < getDate now mn) \<or> (truthy mx \<and> getDate now mx < u))
     \<and> date c = dj_format u DATE_FORMAT
     \<and> TimeWithinDay u = TimeWithinDay t
     \<and> (TimeWithinDay (getDate now mn) = TimeWithinDay t \<longrightarrow>
          (u < getDate now mn) = (Day u < Day (getDate now mn)))
     \<and> (TimeWithinDay (getDate now mx) = TimeWithinDay t \<longrightarrow>
          (getDate now mx < u) = (Day (getDate now mx) < Day u))
     \<and> (u = getDate now mn \<longrightarrow> disabled c = (truthy mx \<and> getDate now mx < u))
     \<and> (u = getDate now mx \<longrightarrow> disabled c = (truthy mn \<and> u < getDate now mn))"
proof -
  define lead where "lead = leadOffset t f"
  define dim where "dim = dj_daysInMonth t"
  have n: "getMonthDays now datetime full mn mx f ! i =
     (if \<not> full \<and> int i < lead then None
      else Some (generateDayObject now (dj_date u) u mn mx (lead \<le> int i \<and> int i < lead + dim)))"
    using getMonthDays_nth(1) [OF assms(3)] by (simp add: t_def u_def lead_def dim_def)
  have c: "c = generateDayObject now (dj_date u) u mn mx (lead \<le> int i \<and> int i < lead + dim)"
    using n assms(4) by (auto split: if_splits)
  have s: "TimeWithinDay u = TimeWithinDay t"
    using getMonthDays_nth(3) [OF assms(3)] by (simp add: t_def u_def)
  have a: "disabled c = ((truthy mn \<and> u < getDate now mn) \<or> (truthy mx \<and> getDate now mx < u))"
    unfolding c generateDayObject_fields by (rule refl)
  have b: "date c = dj_format u DATE_FORMAT"
    unfolding c generateDayObject_fields by (rule refl)
  have lo: "TimeWithinDay (getDate now mn) = TimeWithinDay t \<longrightarrow>
          (u < getDate now mn) = (Day u < Day (getDate now mn))"
    using same_time_less [of u "getDate now mn"] s by simp
  have hi: "TimeWithinDay (getDate now mx) = TimeWithinDay t \<longrightarrow>
          (getDate now mx < u) = (Day (getDate now mx) < Day u)"
    using same_time_less [of "getDate now mx" u] s by simp
  have el: "u = getDate now mn \<longrightarrow> disabled c = (truthy mx \<and> getDate now mx < u)"
    using a by simp
  have eh: "u = getDate now mx \<longrightarrow> disabled c = (truthy mn \<and> u < getDate now mn)"
    using a by simp
  show ?thesis
    using a b s lo hi el eh by (intro conjI)
qed

lemma mar_2024: "dj_year 1710489600000 = 2024" "dj_month 1710489600000 = 2"
  "TimeWithinDay 1710489600000 = 28800000"
  by code_simp+

lemma mar_2024_lead: "leadOffset 1710489600000 0 = 5"
  by code_simp

lemma mar_2024_days: "dj_daysInMonth 1710489600000 = 31"
  by code_simp

lemma mar_2024_length:
  "length (getMonthDays 0 (DateLike 1710489600000) True mn mx 0) = 42"
  by (simp add: getMonthDays_length getDate_def mar_2024_lead mar_2024_days trailingLength_def)

lemma mar_10_2024: "gridInstant 1710489600000 0 14 = 1710057600000"
  by code_simp

lemma mar_11_2024: "gridInstant 1710489600000 0 15 = 1710144000000"
  by code_simp

lemma mar_10_2024_cell:
  "generateDayObject 0 (dj_date 1710057600000) 1710057600000 (DateLike 1710072000000) Absent True =
     \<lparr>text' = ''10'', day = 10, date = ''2024-03-10'', disabled = True, isCurrentMonth = True\<rparr>"
  by code_simp

lemma mar_11_2024_cell:
  "generateDayObject 0 (dj_date 1710144000000) 1710144000000 (DateLike 1710072000000) Absent True =
     \<lparr>text' = ''11'', day = 11, date = ''2024-03-11'', disabled = False, isCurrentMonth = True\<rparr>"
  by code_simp

lemma mar_10_2024_noon: "getFormatedDate 0 (DateLike 1710072000000) DATE_FORMAT = ''2024-03-10''"
  by code_simp

lemma mar_10_2024_bound_cell:
  "generateDayObject 0 (dj_date 1710057600000) 1710057600000 (DateLike 1710057600000) Absent True =
     \<lparr>text' = ''10'', day = 10, date = ''2024-03-10'', disabled = False, isCurrentMonth = True\<rparr>"
  by code_simp

lemma mar_10_2024_epoch_cell:
  "generateDayObject 0 (dj_date 1710057600000) 1710057600000 Absent (Number 0) True =
     \<lparr>text' = ''10'', day = 10, date = ''2024-03-10'', disabled = False, isCurrentMonth = True\<rparr>"
  by code_simp

lemma epoch_day: "getFormatedDate 0 (Number 0) DATE_FORMAT = ''1970-01-01''"
  by code_simp

text \<open>
  The reference date is 2024-03-15 08:00 and \<open>minimumDate\<close> is 2024-03-10 12:00. The cell
  at position 14 is dated 2024-03-10, the calendar date of \<open>minimumDate\<close>, and it is
  disabled: its instant is 2024-03-10 08:00, before noon. With \<open>maximumDate\<close> the number 0,
  the instant 1970-01-01 00:00, the same cell is after the bound and is not disabled: the
  number 0 is falsy.
\<close>

theorem cell_disabled_counterexample:
  "getMonthDays 0 (DateLike 1710489600000) True (DateLike 1710072000000) Absent 0 ! 14 =
     Some \<lparr>text' = ''10'', day = 10, date = ''2024-03-10'', disabled = True,
            isCurrentMonth = True\<rparr>
   \<and> getFormatedDate 0 (DateLike 1710072000000) DATE_FORMAT = ''2024-03-10''
   \<and> getMonthDays 0 (DateLike 1710489600000) True Absent (Number 0) 0 ! 14 =
     Some \<lparr>text' = ''10'', day = 10, date = ''2024-03-10'', disabled = False,
            isCurrentMonth = True\<rparr>
   \<and> getFormatedDate 0 (Number 0) DATE_FORMAT = ''1970-01-01''"
proof -
  have h1: "14 < length (getMonthDays 0 (DateLike 1710489600000) True (DateLike 1710072000000) Absent 0)"
    by (simp add: mar_2024_length)
  have a: "getMonthDays 0 (DateLike 1710489600000) True (DateLike 1710072000000) Absent 0 ! 14 =
     Some \<lparr>text' = ''10'', day = 10, date = ''2024-03-10'', disabled = True,
            isCurrentMonth = True\<rparr>"
    using getMonthDays_nth(1) [OF h1]
    by (simp add: getDate_def mar_2024_lead mar_2024_days mar_10_2024 mar_10_2024_cell)
  have h2: "14 < length (getMonthDays 0 (DateLike 1710489600000) True Absent (Number 0) 0)"
    by (simp add: mar_2024_length)
  have b: "getMonthDays 0 (DateLike 1710489600000) True Absent (Number 0) 0 ! 14 =
     Some \<lparr>text' = ''10'', day = 10, date = ''2024-03-10'', disabled = False,
            isCurrentMonth = True\<rparr>"
    using getMonthDays_nth(1) [OF h2]
    by (simp add: getDate_def mar_2024_lead mar_2024_days mar_10_2024 mar_10_2024_epoch_cell)
  show ?thesis using a mar_10_2024_noon b epoch_day by (intro conjI)
qed

text \<open>
  The reference date is 2024-03-15 08:00 and \<open>minimumDate\<close> is 2024-03-10 08:00, the instant
  of the cell at position 14: the cell is not disabled.
\<close>

theorem cell_disabled_witness:
  "getMonthDays 0 (DateLike 1710489600000) True (DateLike 1710057600000) Absent 0 ! 14 =
     Some \<lparr>text' = ''10'', day = 10, date = ''2024-03-10'', disabled = False,
            isCurrentMonth = True\<rparr>
   \<and> gridInstant (getDate 0 (DateLike 1710489600000)) 0 14 = getDate 0 (DateLike 1710057600000)
   \<and> disabled \<lparr>text' = ''10'', day = 10, date = ''2024-03-10'', disabled = False,
                isCurrentMonth = True\<rparr> = (truthy Absent \<and> getDate 0 Absent < 1710057600000)
   \<and> TimeWithinDay (gridInstant (getDate 0 (DateLike 1710489600000)) 0 14) = 28800000"
proof -
  have h1: "14 < length (getMonthDays 0 (DateLike 1710489600000) True (DateLike 1710057600000) Absent 0)"
    by (simp add: mar_2024_length)
  have h2: "getMonthDays 0 (DateLike 1710489600000) True (DateLike 1710057600000) Absent 0 ! 14 =
     Some \<lparr>text' = ''10'', day = 10, date = ''2024-03-10'', disabled = False,
            isCurrentMonth = True\<rparr>"
    using getMonthDays_nth(1) [OF h1]
    by (simp add: getDate_def mar_2024_lead mar_2024_days mar_10_2024 mar_10_2024_bound_cell)
  note th = cell_disabled [OF h1 h2]
  have e: "gridInstant (getDate 0 (DateLike 1710489600000)) 0 14 = getDate 0 (DateLike 1710057600000)"
    by (simp add: getDate_def mar_10_2024)
  have a: "disabled \<lparr>text' = ''10'', day = 10, date = ''2024-03-10'', disabled = False,
                isCurrentMonth = True\<rparr> = (truthy Absent \<and> getDate 0 Absent < 1710057600000)"
    using th [THEN conjunct2, THEN conjunct2, THEN conjunct2, THEN conjunct2, THEN conjunct2,
        THEN conjunct1] e
    by (simp add: getDate_def)
  have b: "TimeWithinDay (gridInstant (getDate 0 (DateLike 1710489600000)) 0 14) = 28800000"
    using th [THEN conjunct2, THEN conjunct2, THEN conjunct1] by (simp add: getDate_def mar_2024)
  show ?thesis using h2 e a b by (intro conjI)
qed

section \<open>The day of month of the reference date\<close>

subsection \<open>Local time in a zone\<close>

text \<open>
  The library computes the calendar fields of a \<^verbatim>\<open>Date\<close> in local time, and
  \<^verbatim>\<open>setDate\<close>, \<^verbatim>\<open>setMonth\<close>, \<^verbatim>\<open>setHours\<close> and \<^verbatim>\<open>new Date(y, m, d)\<close> go from local time back
  to an instant. A zone gives the two offsets of the standard: \<open>utcOffset z t\<close> is the offset
  of local time at the instant \<open>t\<close>, and \<open>localOffset z w\<close> is the offset by which the local
  time \<open>w\<close> is read; for a local time that a change of offset skips or repeats, it is the
  offset before the change. The methods below are the methods of the first part in a zone,
  and \<open>getMonthDays_tz\<close> is the module's \<open>getMonthDays\<close> with them.
\<close>

record Zone =
  utcOffset :: "int \<Rightarrow> int"
  localOffset :: "int \<Rightarrow> int"

definition LocalTime :: "Zone \<Rightarrow> Dayjs \<Rightarrow> int" where
  "LocalTime z t = t + utcOffset z t"

definition UTC :: "Zone \<Rightarrow> int \<Rightarrow> Dayjs" where
  "UTC z w = w - localOffset z w"

definition tz_year :: "Zone \<Rightarrow> Dayjs \<Rightarrow> int" where
  "tz_year z t = dj_year (LocalTime z t)"

definition tz_month :: "Zone \<Rightarrow> Dayjs \<Rightarrow> int" where
  "tz_month z t = dj_month (LocalTime z t)"

definition tz_date :: "Zone \<Rightarrow> Dayjs \<Rightarrow> int" where
  "tz_date z t = dj_date (LocalTime z t)"

definition tz_day :: "Zone \<Rightarrow> Dayjs \<Rightarrow> int" where
  "tz_day z t = dj_day (LocalTime z t)"

definition tz_format :: "Zone \<Rightarrow> Dayjs \<Rightarrow> string \<Rightarrow> string" where
  "tz_format z t pattern = dj_format (LocalTime z t) pattern"

definition tz_set_date :: "Zone \<Rightarrow> Dayjs \<Rightarrow> int \<Rightarrow> Dayjs" where
  "tz_set_date z t n = UTC z (dj_set_date (LocalTime z t) n)"

definition tz_setMonth :: "Zone \<Rightarrow> Dayjs \<Rightarrow> int \<Rightarrow> Dayjs" where
  "tz_setMonth z t m = UTC z (setMonth (LocalTime z t) m)"

definition MakeTime :: "int \<Rightarrow> int \<Rightarrow> int \<Rightarrow> int \<Rightarrow> int" where
  "MakeTime h m s ms = h * 3600000 + m * 60000 + s * 1000 + ms"

definition tz_setHours :: "Zone \<Rightarrow> Dayjs \<Rightarrow> int \<Rightarrow> int \<Rightarrow> int \<Rightarrow> int \<Rightarrow> Dayjs" where
  "tz_setHours z t h m s ms = UTC z (MakeDate (Day (LocalTime z t)) (MakeTime h m s ms))"

definition tz_new_Date :: "Zone \<Rightarrow> int \<Rightarrow> int \<Rightarrow> int \<Rightarrow> Dayjs" where
  "tz_new_Date z y m d = UTC z (MakeDate (MakeDay (twoDigitYear y) m d) (MakeTime 0 0 0 0))"

definition tz_daysInMonth :: "Zone \<Rightarrow> Dayjs \<Rightarrow> int" where
  "tz_daysInMonth z t =
     tz_date z (tz_setHours z (tz_new_Date z (tz_year z t) (tz_month z t + 1) 0) 23 59 59 999)"

definition tz_add_month :: "Zone \<Rightarrow> Dayjs \<Rightarrow> int \<Rightarrow> Dayjs" where
  "tz_add_month z t n =
     (let first = tz_set_date z t 1;
          moved = tz_setMonth z first (tz_month z t + n)
      in tz_set_date z moved (min (tz_date z t) (tz_daysInMonth z moved)))"

definition generateDayObject_tz ::
  "Zone \<Rightarrow> Dayjs \<Rightarrow> int \<Rightarrow> Dayjs \<Rightarrow> DateType \<Rightarrow> DateType \<Rightarrow> bool \<Rightarrow> IDayObject" where
  "generateDayObject_tz z now dayNumber thisDate minDate maxDate isCurrent =
     (let disabled0 = False;
          disabled1 = (if truthy minDate then thisDate < getDate now minDate else disabled0);
          disabled2 = (if truthy maxDate \<and> \<not> disabled1 then thisDate > getDate now maxDate
                       else disabled1)
      in \<lparr>text' = toString dayNumber,
          day = dayNumber,
          date = tz_format z (dayjs now (DateLike thisDate)) DATE_FORMAT,
          disabled = disabled2,
          isCurrentMonth = isCurrent\<rparr>)"

definition getMonthDays_tz ::
  "Zone \<Rightarrow> Dayjs \<Rightarrow> DateType \<Rightarrow> bool \<Rightarrow> DateType \<Rightarrow> DateType \<Rightarrow> int
     \<Rightarrow> IDayObject option list" where
  "getMonthDays_tz z now datetime displayFullDays minimumDate maximumDate firstDayOfWeek =
     (let thisDate = getDate now datetime;
          daysInMonth = tz_daysInMonth z thisDate;
          prevMonthDays = tz_daysInMonth z (tz_add_month z thisDate (- 1));
          firstDay = tz_set_date z thisDate (1 - firstDayOfWeek);
          dayOfMonth = js_rem (tz_day z firstDay) 7;
          prevDays =
            (if displayFullDays
             then Array_from dayOfMonth (\<lambda>i.
                    let dayNumber = i + (prevMonthDays - dayOfMonth + 1);
                        thisDay = tz_set_date z (tz_add_month z thisDate (- 1)) dayNumber
                    in Some (generateDayObject_tz z now dayNumber thisDay minimumDate maximumDate
                               False))
             else replicate (nat dayOfMonth) None);
          monthDaysOffset = dayOfMonth + daysInMonth;
          nextMonthDays =
            (if displayFullDays
             then (if monthDaysOffset > 35 then 42 - monthDaysOffset else 35 - monthDaysOffset)
             else 0);
          currentDays =
            Array_from daysInMonth (\<lambda>i.
              let dayNumber = i + 1;
                  thisDay = tz_set_date z thisDate dayNumber
              in Some (generateDayObject_tz z now dayNumber thisDay minimumDate maximumDate True));
          nextDays =
            Array_from nextMonthDays (\<lambda>i.
              let dayNumber = i + 1;
                  thisDay = tz_set_date z (tz_add_month z thisDate 1) dayNumber
              in Some (generateDayObject_tz z now dayNumber thisDay minimumDate maximumDate False))
      in prevDays @ currentDays @ nextDays)"

text \<open>
  The zone of the example is two hours ahead of UTC before 2024-04-25 22:00 UTC and three
  hours from then on, as Africa/Cairo was in the spring of 2024: local time goes from
  2024-04-26 00:00 to 01:00.
\<close>

definition cairo :: Zone where
  "cairo =
     \<lparr>utcOffset = (\<lambda>t. if t < 1714082400000 then 7200000 else 10800000),
      localOffset = (\<lambda>w. if w < 1714082400000 + 10800000 then 7200000 else 10800000)\<rparr>"


text \<open>The zone at the fixed offset \<open>c\<close>.\<close>

definition fixedZone :: "int \<Rightarrow> Zone" where
  "fixedZone c = \<lparr>utcOffset = (\<lambda>t. c), localOffset = (\<lambda>w. c)\<rparr>"

subsection \<open>A zone at a fixed offset\<close>

lemma fixed_LocalTime:
  assumes "\<And>t. utcOffset z t = c"
  shows "LocalTime z t = t + c"
  by (simp add: LocalTime_def assms)

lemma fixed_UTC:
  assumes "\<And>w. localOffset z w = c"
  shows "UTC z w = w - c"
  by (simp add: UTC_def assms)

lemma fixed_methods:
  assumes u: "\<And>t. utcOffset z t = c" and l: "\<And>w. localOffset z w = c"
  shows "tz_year z t = dj_year (t + c)"
    and "tz_month z t = dj_month (t + c)"
    and "tz_date z t = dj_date (t + c)"
    and "tz_day z t = dj_day (t + c)"
    and "tz_format z t pattern = dj_format (t + c) pattern"
    and "tz_set_date z t n = dj_set_date (t + c) n - c"
    and "tz_setMonth z t m = setMonth (t + c) m - c"
  by (simp_all add: tz_year_def tz_month_def tz_date_def tz_day_def tz_format_def tz_set_date_def
      tz_setMonth_def fixed_LocalTime [OF u] fixed_UTC [OF l] del: dj_format.simps)

lemma fixed_daysInMonth:
  assumes u: "\<And>t. utcOffset z t = c" and l: "\<And>w. localOffset z w = c"
  shows "tz_daysInMonth z t = dj_daysInMonth (t + c)"
proof -
  have a: "Day (MakeDate d (MakeTime 0 0 0 0)) = d" for d
    by (rule Day_MakeDate(1)) (simp_all add: MakeTime_def msPerDay_def)
  have b: "Day (MakeDate d (MakeTime 23 59 59 999)) = d" for d
    by (rule Day_MakeDate(1)) (simp_all add: MakeTime_def msPerDay_def)
  show ?thesis
    by (simp add: tz_daysInMonth_def tz_setHours_def tz_new_Date_def fixed_methods [OF u l]
        fixed_LocalTime [OF u] fixed_UTC [OF l] dj_date_def a b dj_daysInMonth_def)
qed

lemma fixed_add_month:
  assumes u: "\<And>t. utcOffset z t = c" and l: "\<And>w. localOffset z w = c"
  shows "tz_add_month z t n = dj_add_month (t + c) n - c"
  by (simp add: tz_add_month_def dj_add_month_def Let_def fixed_methods [OF u l]
      fixed_daysInMonth [OF u l])

text \<open>In the zone of offset 0 the module is the module of the first part.\<close>

lemma getMonthDays_tz_utc: "getMonthDays_tz (fixedZone 0) = getMonthDays"
proof -
  have u: "\<And>t. utcOffset (fixedZone 0) t = 0" and l: "\<And>w. localOffset (fixedZone 0) w = 0"
    by (simp_all add: fixedZone_def)
  have g: "generateDayObject_tz (fixedZone 0) now n x mn mx b = generateDayObject now n x mn mx b"
    for now n x mn mx b
    by (simp add: generateDayObject_tz_def generateDayObject_def getFormatedDate_def
        fixed_methods [OF u l] del: dj_format.simps)
  show ?thesis
  proof (intro ext)
    fix now datetime full mn mx f
    show "getMonthDays_tz (fixedZone 0) now datetime full mn mx f =
        getMonthDays now datetime full mn mx f"
      unfolding getMonthDays_tz_def getMonthDays_def Let_def fixed_methods [OF u l]
        fixed_daysInMonth [OF u l] fixed_add_month [OF u l] g add_0_right diff_0_right
      by (rule refl)
  qed
qed



subsection \<open>A zone with a change of offset\<close>



lemma cairo_fields:
  "tz_year cairo 1716670800000 = 2024" "tz_month cairo 1716670800000 = 4"
  "TimeWithinDay (LocalTime cairo 1716670800000) = 0"
  "tz_year cairo 1715288400000 = 2024" "tz_month cairo 1715288400000 = 4"
  "TimeWithinDay (LocalTime cairo 1715288400000) = 0"
  by code_simp+








text \<open>
  In a zone at the fixed offset \<open>c\<close> the module is the module of the first part at the
  dates moved by \<open>c\<close>: the local time of an instant there is an instant here.
\<close>

definition shifted :: "int \<Rightarrow> Dayjs \<Rightarrow> DateType \<Rightarrow> DateType" where
  "shifted c now x = (if truthy x then DateLike (dayjs now x + c) else Absent)"

lemma getMonthDays_tz_fixed:
  assumes u: "\<And>t. utcOffset z t = c" and l: "\<And>w. localOffset z w = c"
  shows "getMonthDays_tz z now datetime full mn mx f =
     getMonthDays now (DateLike (getDate now datetime + c)) full (shifted c now mn)
       (shifted c now mx) f"
proof -
  have g: "generateDayObject_tz z now n (x - c) mn mx b =
      generateDayObject now n x (shifted c now mn) (shifted c now mx) b" for n x b
    by (auto simp add: generateDayObject_tz_def generateDayObject_def getFormatedDate_def
        shifted_def getDate_def Let_def fixed_methods [OF u l] simp del: dj_format.simps)
  have d: "getDate now (DateLike (getDate now datetime + c)) = getDate now datetime + c"
    by (simp add: getDate_def)
  show ?thesis
    unfolding getMonthDays_tz_def getMonthDays_def Let_def fixed_methods [OF u l]
      fixed_daysInMonth [OF u l] fixed_add_month [OF u l] diff_add_cancel g d
    by (rule refl)
qed

section \<open>The same day\<close>

lemma epoch_text: "format_value 1710489600000 (Readable (Number 0)) DATE_FORMAT = ''1970-01-01''"
  by code_simp

lemma mar_15_2024_texts:
  "dj_format 1710489600000 DATE_FORMAT = ''2024-03-15''"
  "dj_format 1710460800000 DATE_FORMAT = ''2024-03-15''"
  by code_simp+

text \<open>
  C8, as the module has it. \<open>areDatesOnSameDay\<close> returns false when one of its arguments
  is falsy, that is \<^verbatim>\<open>null\<close>, \<^verbatim>\<open>undefined\<close>, the empty text, \<^verbatim>\<open>NaN\<close> or the number 0, and
  otherwise it returns true exactly when the two arguments have the same text in the pattern
  \<^verbatim>\<open>YYYY-MM-DD\<close>. It returns a value in every case.
\<close>

theorem areDatesOnSameDay_truthy:
  "areDatesOnSameDay now a b =
     (truthy_value a \<and> truthy_value b
      \<and> format_value now a DATE_FORMAT = format_value now b DATE_FORMAT)
   \<and> areDatesOnSameDay now Null b = False \<and> areDatesOnSameDay now a Null = False
   \<and> areDatesOnSameDay now (Readable Absent) b = False
   \<and> areDatesOnSameDay now a (Readable Absent) = False
   \<and> areDatesOnSameDay now EmptyText b = False \<and> areDatesOnSameDay now a EmptyText = False
   \<and> areDatesOnSameDay now NaN b = False \<and> areDatesOnSameDay now a NaN = False
   \<and> areDatesOnSameDay now (Readable (Number 0)) b = False
   \<and> areDatesOnSameDay now a (Readable (Number 0)) = False"
  by (auto simp add: areDatesOnSameDay_def Let_def)

text \<open>
  Both arguments are the number 0, the instant 1970-01-01 00:00: they are present and
  have the same text, and the result is false.
\<close>

theorem areDatesOnSameDay_zero_counterexample:
  "areDatesOnSameDay 1710489600000 (Readable (Number 0)) (Readable (Number 0)) = False
   \<and> format_value 1710489600000 (Readable (Number 0)) DATE_FORMAT = ''1970-01-01''"
  using epoch_text by (simp add: areDatesOnSameDay_def)

theorem areDatesOnSameDay_truthy_witness:
  "areDatesOnSameDay 0 (Readable (DateLike 1710489600000)) (Readable (DateLike 1710460800000))
     = True
   \<and> areDatesOnSameDay 0 (Readable (DateLike 1710489600000)) EmptyText = False
   \<and> areDatesOnSameDay 0 Unreadable Unreadable = True"
  using areDatesOnSameDay_truthy [of 0 "Readable (DateLike 1710489600000)"
      "Readable (DateLike 1710460800000)", THEN conjunct1]
    areDatesOnSameDay_truthy [of 0 "Readable (DateLike 1710489600000)" EmptyText, THEN conjunct1]
    areDatesOnSameDay_truthy [of 0 Unreadable Unreadable, THEN conjunct1]
  by (simp add: mar_15_2024_texts del: dj_format.simps)

end
